theory Spec2Isabelle
  imports Main "HOL-Library.Sublist"
begin

section \<open>Dates\<close>

text \<open>
  A JavaScript \<open>Date\<close> object holds a time value: a number of milliseconds since
  1970-01-01T00:00:00Z, at most 8.64e15 either side of it, or NaN (an "Invalid Date",
  for which \<open>isNaN(d)\<close> is true and every comparison is false). The strings the page
  supplies (\<open>c.date\<close>, \<open>card.dataset.date\<close>) reach the code only through
  \<open>new Date(...)\<close>; a date string is represented here by the \<open>Date\<close> it parses to.
\<close>

datatype jsdate = InvalidDate | Date int

datatype js_error = FetchRejected | Error string | JsonRejected | TypeError | RangeError

definition msPerDay :: int where
  "msPerDay = 1000 * 60 * 60 * 24"

definition msPerHour :: int where
  "msPerHour = 1000 * 60 * 60"

definition maxTime :: int where
  "maxTime = 8640000000000000"

text \<open>\<open>TimeClip\<close>: a setter whose result leaves the range of time values gives an Invalid Date.\<close>

definition timeClip :: "int \<Rightarrow> jsdate" where
  "timeClip t = (if - maxTime \<le> t \<and> t \<le> maxTime then Date t else InvalidDate)"

text \<open>
  The local-time methods (\<open>setHours\<close>, \<open>getDate\<close>, \<open>getDay\<close>, \<open>setDate\<close>) depend on
  the browser's time zone, \<open>toISOString\<close> does not. The time zone is a parameter of the
  model: its standard offset from UTC in milliseconds, and when daylight saving time, of
  one hour, is in effect, asked of a UTC time (ECMAScript's \<open>LocalTZA(t, true)\<close>) and of
  a local time (\<open>LocalTZA(t, false)\<close>, which decides how a local time that is skipped or
  repeated at a transition is read).
\<close>

record zone =
  stdOffset :: int
  dstAtUtc :: "int \<Rightarrow> bool"
  dstAtLocal :: "int \<Rightarrow> bool"

definition offsetAtUtc :: "zone \<Rightarrow> int \<Rightarrow> int" where
  "offsetAtUtc z t = stdOffset z + (if dstAtUtc z t then msPerHour else 0)"

definition offsetAtLocal :: "zone \<Rightarrow> int \<Rightarrow> int" where
  "offsetAtLocal z l = stdOffset z + (if dstAtLocal z l then msPerHour else 0)"

text \<open>\<open>LocalTime(t)\<close> and \<open>UTC(t)\<close> of ECMAScript.\<close>

definition localTime :: "zone \<Rightarrow> int \<Rightarrow> int" where
  "localTime z t = t + offsetAtUtc z t"

definition utcTime :: "zone \<Rightarrow> int \<Rightarrow> int" where
  "utcTime z l = l - offsetAtLocal z l"

text \<open>The number of the local calendar day a time falls on (day 0 is 1970-01-01).\<close>

definition localDay :: "zone \<Rightarrow> int \<Rightarrow> int" where
  "localDay z t = localTime z t div msPerDay"

text \<open>\<open>d.getDay()\<close>: the local day of the week, 0 for Sunday. 1970-01-01 was a Thursday.\<close>

definition getDay :: "zone \<Rightarrow> int \<Rightarrow> int" where
  "getDay z t = (localDay z t + 4) mod 7"

text \<open>\<open>d.setHours(0, 0, 0, 0)\<close> on a valid date: local midnight at the start of its local day.\<close>

definition startOfDay :: "zone \<Rightarrow> int \<Rightarrow> jsdate" where
  "startOfDay z t = timeClip (utcTime z (localDay z t * msPerDay))"

text \<open>\<open>d.setHours(23, 59, 59, 999)\<close> on a valid date: the last millisecond of its local day.\<close>

definition endOfDay :: "zone \<Rightarrow> int \<Rightarrow> jsdate" where
  "endOfDay z t = timeClip (utcTime z (localDay z t * msPerDay + (msPerDay - 1)))"

text \<open>
  \<open>d.setDate(d.getDate() + n)\<close> on a valid date: the local time \<open>n\<close> days later on the
  local clock, read back as a UTC time.
\<close>

definition addDays :: "zone \<Rightarrow> int \<Rightarrow> int \<Rightarrow> jsdate" where
  "addDays z t n = timeClip (utcTime z (localTime z t + n * msPerDay))"

text \<open>
  \<open>d.toISOString().split('T')[0]\<close> on a valid date: the UTC calendar date of \<open>t\<close>,
  written YYYY-MM-DD. The string is represented by the number of the UTC day it names
  (day 0 is \<open>1970-01-01\<close>); two such strings are equal exactly when the day numbers
  are. On an Invalid Date \<open>toISOString\<close> throws a \<open>RangeError\<close>.
\<close>

definition isoDate :: "int \<Rightarrow> int" where
  "isoDate t = t div msPerDay"

text \<open>The day of the week of a UTC day number, 0 for Sunday.\<close>

definition weekdayOfDay :: "int \<Rightarrow> int" where
  "weekdayOfDay n = (n + 4) mod 7"

section \<open>Strings\<close>

text \<open>
  A string that is searched, lower-cased or compared with one that is (a title, a
  project name, a folder path, the search term) is kept as the list of its UTF-16 code
  units; \<open>str\<close> gives the code units of an ASCII literal. Strings that are only
  compared and joined (identifiers, style values) are kept as Isabelle strings.
\<close>

type_synonym jsstring = "nat list"

definition str :: "string \<Rightarrow> jsstring" where
  "str s = map of_char s"

section \<open>Time slider: buckets\<close>

datatype granularity = Day | Week

record conversation =
  conv_project :: jsstring
  conv_date :: jsdate
  conv_messages :: "nat option"

record bucket =
  date :: int
  key :: int
  conversations :: nat
  messages :: nat
  granularity :: granularity

text \<open>
  A JavaScript \<open>Map\<close> keeps its entries in insertion order; \<open>set\<close> on a key that is
  present replaces the value in place, on a new key it appends.
\<close>

fun map_set :: "'k \<Rightarrow> 'v \<Rightarrow> ('k \<times> 'v) list \<Rightarrow> ('k \<times> 'v) list" where
  "map_set k v [] = [(k, v)]"
| "map_set k v ((k', v') # m) =
     (if k' = k then (k, v) # m else (k', v') # map_set k v m)"

text \<open>\<open>getBucketKey\<close> of a valid date: the key, or the \<open>RangeError\<close> of \<open>toISOString\<close>.\<close>

definition getBucketKey :: "zone \<Rightarrow> int \<Rightarrow> granularity \<Rightarrow> js_error + int" where
  "getBucketKey z d g =
     (case (if g = Week then addDays z d (- getDay z d) else Date d) of
        InvalidDate \<Rightarrow> Inl RangeError
      | Date t \<Rightarrow> Inr (isoDate t))"

text \<open>
  The loop of \<open>createBuckets\<close> that creates the empty buckets. \<open>current <= end\<close> is
  false when either date is invalid.
\<close>

function emptyBuckets ::
  "zone \<Rightarrow> granularity \<Rightarrow> jsdate \<Rightarrow> jsdate \<Rightarrow> (int \<times> bucket) list
     \<Rightarrow> js_error + (int \<times> bucket) list" where
  "emptyBuckets z g (Date current) (Date endDate) bucketMap =
     (if current \<le> endDate then
        (case getBucketKey z current g of
           Inl e \<Rightarrow> Inl e
         | Inr k \<Rightarrow>
             emptyBuckets z g
               (if g = Week then addDays z current 7 else addDays z current 1) (Date endDate)
               (map_set k
                  \<lparr>date = current, key = k, conversations = 0, messages = 0, granularity = g\<rparr>
                  bucketMap))
      else Inr bucketMap)"
| "emptyBuckets z g InvalidDate endDate bucketMap = Inr bucketMap"
| "emptyBuckets z g (Date current) InvalidDate bucketMap = Inr bucketMap"
  by pat_completeness auto
termination
  by (relation "measure (\<lambda>(z, g, current, endDate, m).
        (case (current, endDate) of (Date c, Date e) \<Rightarrow> nat (e - c + 1) | _ \<Rightarrow> 0))")
     (auto simp: addDays_def timeClip_def utcTime_def localTime_def offsetAtUtc_def
        offsetAtLocal_def msPerDay_def msPerHour_def split: jsdate.splits)

declare emptyBuckets.simps [simp del]

text \<open>The body of \<open>conversations.forEach\<close> in \<open>createBuckets\<close>.\<close>

definition aggregate ::
  "zone \<Rightarrow> granularity \<Rightarrow> (int \<times> bucket) list \<Rightarrow> conversation
     \<Rightarrow> js_error + (int \<times> bucket) list" where
  "aggregate z g bucketMap conv =
     (case conv_date conv of
        InvalidDate \<Rightarrow> Inr bucketMap
      | Date d \<Rightarrow>
          (case getBucketKey z d g of
             Inl e \<Rightarrow> Inl e
           | Inr k \<Rightarrow>
               (case map_of bucketMap k of
                  None \<Rightarrow> Inr bucketMap
                | Some b \<Rightarrow>
                    Inr (map_set k
                      (b\<lparr>conversations := conversations b + 1,
                         messages := messages b
                           + (case conv_messages conv of None \<Rightarrow> 0 | Some n \<Rightarrow> n)\<rparr>)
                      bucketMap))))"

text \<open>\<open>conversations.forEach\<close>: it ends at the first conversation whose key throws.\<close>

fun aggregateAll ::
  "zone \<Rightarrow> granularity \<Rightarrow> (int \<times> bucket) list \<Rightarrow> conversation list
     \<Rightarrow> js_error + (int \<times> bucket) list" where
  "aggregateAll z g bucketMap [] = Inr bucketMap"
| "aggregateAll z g bucketMap (conv # convs) =
     (case aggregate z g bucketMap conv of
        Inl e \<Rightarrow> Inl e
      | Inr bucketMap' \<Rightarrow> aggregateAll z g bucketMap' convs)"

definition createBuckets ::
  "zone \<Rightarrow> int \<Rightarrow> int \<Rightarrow> granularity \<Rightarrow> conversation list \<Rightarrow> js_error + bucket list" where
  "createBuckets z minDate maxDate g convs =
     (let start = startOfDay z minDate;
          start = (if g = Week
                   then (case start of InvalidDate \<Rightarrow> InvalidDate
                         | Date s \<Rightarrow> addDays z s (- getDay z s))
                   else start);
          endDate = endOfDay z maxDate
      in case emptyBuckets z g start endDate [] of
           Inl e \<Rightarrow> Inl e
         | Inr bucketMap \<Rightarrow>
             (case aggregateAll z g bucketMap convs of
                Inl e \<Rightarrow> Inl e
              | Inr bucketMap \<Rightarrow> Inr (sort_key date (map snd bucketMap))))"

text \<open>The valid dates of a conversation list: \<open>map(c => new Date(c.date)).filter(d => !isNaN(d))\<close>.\<close>

fun validDates :: "conversation list \<Rightarrow> int list" where
  "validDates [] = []"
| "validDates (c # cs) =
     (case conv_date c of InvalidDate \<Rightarrow> validDates cs | Date d \<Rightarrow> d # validDates cs)"

text \<open>\<open>Math.ceil((maxDate - minDate) / (1000 * 60 * 60 * 24))\<close>.\<close>

definition daysDiff :: "int \<Rightarrow> int \<Rightarrow> int" where
  "daysDiff minDate maxDate = - ((- (maxDate - minDate)) div msPerDay)"

text \<open>
  \<open>processData\<close>: the buckets it assigns to \<open>buckets\<close>, or the error it throws before
  assigning.
\<close>

definition processData :: "zone \<Rightarrow> conversation list \<Rightarrow> js_error + bucket list" where
  "processData z convs =
     (case validDates convs of
        [] \<Rightarrow> Inr []
      | d # ds \<Rightarrow>
          (let minDate = fold min ds d;
               maxDate = fold max ds d;
               g = (if daysDiff minDate maxDate > 60 then Week else Day)
           in createBuckets z minDate maxDate g convs))"

section \<open>Time slider: state\<close>

text \<open>
  The module's variables, the page elements it looked up, and the two globals it reads
  (\<open>window.conversationData\<close>, \<open>None\<close> when undefined, and the time zone). An element
  variable is \<open>None\<close> when the page has no such element. What an element shows is kept
  as data: a bar by its \<open>data-\<close> attributes and its \<open>selected\<close> class, a formatted
  date by the time it formats; the height of a bar and its tooltip are left out.
  \<open>render\<close> writes to \<open>timeLabels\<close> without a test, so that element is taken to
  exist wherever \<open>histogramBars\<close> does.
\<close>

datatype metric = Conversations | Messages

record bar =
  bar_index :: nat
  bar_selected :: bool
  bar_date :: int
  bar_conversations :: nat
  bar_messages :: nat

datatype bars = NoData | Bars "bar list"

datatype range_text = NoText | Single int | FromTo int int

record range_display =
  rd_display :: string
  rd_text :: range_text

text \<open>
  The overlay's \<open>left\<close> and \<open>width\<close> are multiples of \<open>barWidth = 100 / buckets.length\<close>;
  the two multipliers are kept.
\<close>

record overlay =
  ov_display :: string
  ov_left :: int
  ov_width :: int

text \<open>What the callback is called with: \<open>(startDate, endDate)\<close>, \<open>None\<close> for null or undefined.\<close>

type_synonym notification = "jsdate option \<times> jsdate option"

record slider =
  currentMetric :: metric
  buckets :: "bucket list"
  currentFolder_ts :: jsstring
  selectionStart :: "int option"
  selectionEnd :: "int option"
  isDragging :: bool
  dragStartIndex :: "int option"
  onRangeChangeCallback :: bool
  histogramBars :: "bars option"
  timeLabels :: "int list"
  metricLabel :: "string option"
  clearRangeBtn :: "string option"
  rangeDisplay :: "range_display option"
  histogramSelection :: "overlay option"
  conversationData :: "conversation list option"
  timeZone :: zone
  listening :: bool

text \<open>\<open>Math.min(selectionStart, selectionEnd ?? selectionStart)\<close> and the \<open>Math.max\<close> beside it.\<close>

definition selMin :: "slider \<Rightarrow> int \<Rightarrow> int" where
  "selMin st s = min s (case selectionEnd st of None \<Rightarrow> s | Some e \<Rightarrow> e)"

definition selMax :: "slider \<Rightarrow> int \<Rightarrow> int" where
  "selMax st s = max s (case selectionEnd st of None \<Rightarrow> s | Some e \<Rightarrow> e)"

text \<open>\<open>buckets[i]?.date\<close>: undefined when \<open>i\<close> is not an index of the array.\<close>

definition bucketDateAt :: "bucket list \<Rightarrow> int \<Rightarrow> int option" where
  "bucketDateAt bs i = (if 0 \<le> i \<and> i < int (length bs) then Some (date (bs ! nat i)) else None)"

definition isIndexInSelection :: "slider \<Rightarrow> int \<Rightarrow> bool" where
  "isIndexInSelection st index =
     (case selectionStart st of
        None \<Rightarrow> False
      | Some s \<Rightarrow> index \<ge> selMin st s \<and> index \<le> selMax st s)"

definition updateSelectionOverlay :: "slider \<Rightarrow> slider" where
  "updateSelectionOverlay st =
     (case histogramSelection st of
        None \<Rightarrow> st
      | Some ov \<Rightarrow>
          (case selectionStart st of
             None \<Rightarrow> st\<lparr>histogramSelection := Some (ov\<lparr>ov_display := ''none''\<rparr>)\<rparr>
           | Some s \<Rightarrow>
               st\<lparr>histogramSelection :=
                    Some \<lparr>ov_display = ''block'', ov_left = selMin st s,
                          ov_width = selMax st s - selMin st s + 1\<rparr>\<rparr>))"

text \<open>\<open>Math.ceil(buckets.length / 8)\<close>.\<close>

definition labelInterval :: "nat \<Rightarrow> nat" where
  "labelInterval n = (n + 7) div 8"

definition render :: "slider \<Rightarrow> slider" where
  "render st =
     (case histogramBars st of
        None \<Rightarrow> st
      | Some _ \<Rightarrow>
          if buckets st = [] then st\<lparr>histogramBars := Some NoData\<rparr>
          else
            updateSelectionOverlay
              (st\<lparr>histogramBars :=
                    Some (Bars (map (\<lambda>(index, b).
                        \<lparr>bar_index = index,
                         bar_selected = isIndexInSelection st (int index),
                         bar_date = key b,
                         bar_conversations = conversations b,
                         bar_messages = messages b\<rparr>)
                      (enumerate 0 (buckets st)))),
                  timeLabels :=
                    map (\<lambda>(i, b). date b)
                      (filter (\<lambda>(i, b). i mod labelInterval (length (buckets st)) = 0
                                  \<or> i = length (buckets st) - 1)
                         (enumerate 0 (buckets st)))\<rparr>))"

definition toggleMetric :: "slider \<Rightarrow> slider" where
  "toggleMetric st =
     (let st = st\<lparr>currentMetric :=
                   (if currentMetric st = Conversations then Messages else Conversations)\<rparr>;
          st = st\<lparr>metricLabel :=
                   map_option (\<lambda>_. if currentMetric st = Conversations
                                    then ''Conversations'' else ''Messages'')
                     (metricLabel st)\<rparr>
      in render st)"

text \<open>
  The handlers take what \<open>getIndexFromTarget\<close> returned for the event's target: the
  \<open>data-index\<close> of the bar under the pointer, or \<open>None\<close> (null) off the bars.
\<close>

definition handleMouseDown :: "int option \<Rightarrow> slider \<Rightarrow> slider" where
  "handleMouseDown index st =
     (case index of
        None \<Rightarrow> st
      | Some i \<Rightarrow>
          render (st\<lparr>isDragging := True, dragStartIndex := Some i,
                     selectionStart := Some i, selectionEnd := Some i\<rparr>))"

definition handleMouseMove :: "int option \<Rightarrow> slider \<Rightarrow> slider" where
  "handleMouseMove index st =
     (if \<not> isDragging st then st
      else case index of
             None \<Rightarrow> st
           | Some i \<Rightarrow> render (st\<lparr>selectionEnd := Some i\<rparr>))"

definition updateRangeDisplay :: "slider \<Rightarrow> slider" where
  "updateRangeDisplay st =
     (case rangeDisplay st of
        None \<Rightarrow> st
      | Some rd \<Rightarrow>
          (case selectionStart st of
             None \<Rightarrow> st
           | Some s \<Rightarrow>
               (case (bucketDateAt (buckets st) (selMin st s),
                      bucketDateAt (buckets st) (selMax st s)) of
                  (Some startDate, Some endDate) \<Rightarrow>
                    st\<lparr>rangeDisplay :=
                         Some \<lparr>rd_display = ''block'',
                               rd_text = (if selMin st s = selMax st s then Single startDate
                                          else FromTo startDate endDate)\<rparr>\<rparr>
                | _ \<Rightarrow> st)))"

text \<open>
  \<open>notifyRangeChange\<close> yields the calls it makes to the registered callback: none when
  no callback is registered, one otherwise.
\<close>

definition notifyRangeChange :: "slider \<Rightarrow> notification list" where
  "notifyRangeChange st =
     (if onRangeChangeCallback st then
        [case selectionStart st of
           None \<Rightarrow> (None, None)
         | Some s \<Rightarrow>
             (map_option Date (bucketDateAt (buckets st) (selMin st s)),
              map_option (\<lambda>d. endOfDay (timeZone st) d)
                (bucketDateAt (buckets st) (selMax st s)))]
      else [])"

definition handleMouseUp :: "slider \<Rightarrow> slider \<times> notification list" where
  "handleMouseUp st =
     (if \<not> isDragging st then (st, [])
      else
        let st = st\<lparr>isDragging := False\<rparr> in
        case selectionStart st of
          None \<Rightarrow> (st, [])
        | Some s \<Rightarrow>
            (let st = st\<lparr>selectionStart := Some (selMin st s),
                         selectionEnd := Some (selMax st s)\<rparr>;
                 st = st\<lparr>clearRangeBtn := map_option (\<lambda>_. ''inline-block'') (clearRangeBtn st)\<rparr>;
                 st = updateRangeDisplay st
             in (st, notifyRangeChange st)))"

text \<open>
  The touch handlers find the element under the touch point and do what the mouse
  handlers do with it.
\<close>

definition handleTouchStart :: "int option \<Rightarrow> slider \<Rightarrow> slider" where
  "handleTouchStart index st =
     (case index of
        None \<Rightarrow> st
      | Some i \<Rightarrow>
          render (st\<lparr>isDragging := True, dragStartIndex := Some i,
                     selectionStart := Some i, selectionEnd := Some i\<rparr>))"

definition handleTouchMove :: "int option \<Rightarrow> slider \<Rightarrow> slider" where
  "handleTouchMove index st =
     (if \<not> isDragging st then st
      else case index of
             None \<Rightarrow> st
           | Some i \<Rightarrow> render (st\<lparr>selectionEnd := Some i\<rparr>))"


definition clearSelection :: "slider \<Rightarrow> slider \<times> notification list" where
  "clearSelection st =
     (let st = st\<lparr>selectionStart := None, selectionEnd := None\<rparr>;
          st = st\<lparr>clearRangeBtn := map_option (\<lambda>_. ''none'') (clearRangeBtn st)\<rparr>;
          st = st\<lparr>rangeDisplay :=
                   map_option (\<lambda>rd. rd\<lparr>rd_display := ''none''\<rparr>) (rangeDisplay st)\<rparr>;
          st = render st
      in (st, notifyRangeChange st))"

text \<open>
  \<open>filterByFolder\<close> gives the state it leaves and the calls it makes to the callback,
  and the error it throws, if any: when \<open>processData\<close> throws, \<open>buckets\<close> is not
  assigned and neither \<open>render\<close> nor \<open>notifyRangeChange\<close> is reached.
\<close>

definition filterByFolder ::
  "jsstring \<Rightarrow> slider \<Rightarrow> (slider \<times> notification list) \<times> js_error option" where
  "filterByFolder folder st =
     (let st = st\<lparr>currentFolder_ts := folder\<rparr>;
          st = st\<lparr>selectionStart := None, selectionEnd := None\<rparr>;
          st = st\<lparr>clearRangeBtn := map_option (\<lambda>_. ''none'') (clearRangeBtn st)\<rparr>;
          st = st\<lparr>rangeDisplay :=
                   map_option (\<lambda>rd. rd\<lparr>rd_display := ''none''\<rparr>) (rangeDisplay st)\<rparr>;
          filteredData = (case conversationData st of None \<Rightarrow> [] | Some cs \<Rightarrow> cs);
          filteredData = (if currentFolder_ts st \<noteq> []
                          then filter (\<lambda>c. conv_project c = currentFolder_ts st) filteredData
                          else filteredData)
      in case processData (timeZone st) filteredData of
           Inl e \<Rightarrow> ((st, []), Some e)
         | Inr bs \<Rightarrow>
             (let st = st\<lparr>buckets := bs\<rparr>;
                  st = render st
              in ((st, notifyRangeChange st), None)))"

definition getSelection :: "slider \<Rightarrow> (int option \<times> int option) option" where
  "getSelection st =
     (case selectionStart st of
        None \<Rightarrow> None
      | Some s \<Rightarrow>
          Some (bucketDateAt (buckets st) (selMin st s),
                bucketDateAt (buckets st) (selMax st s)))"

text \<open>\<open>Array.prototype.findIndex\<close>: the first index whose element passes, or -1.\<close>

fun findIndex :: "('a \<Rightarrow> bool) \<Rightarrow> 'a list \<Rightarrow> int" where
  "findIndex P [] = - 1"
| "findIndex P (x # xs) =
     (if P x then 0 else (let i = findIndex P xs in if i = - 1 then - 1 else i + 1))"

text \<open>\<open>b.date.getTime() >= t\<close>, false when \<open>t\<close> is NaN.\<close>

definition atOrAfter :: "jsdate \<Rightarrow> bucket \<Rightarrow> bool" where
  "atOrAfter t b = (case t of InvalidDate \<Rightarrow> False | Date ms \<Rightarrow> date b \<ge> ms)"

text \<open>
  \<open>setSelection\<close> is given \<open>Date\<close> objects or null. A \<open>Date\<close> object is truthy, also
  an invalid one.
\<close>

definition setSelection ::
  "jsdate option \<Rightarrow> jsdate option \<Rightarrow> slider \<Rightarrow> slider \<times> notification list" where
  "setSelection startDate endDate st =
     (case startDate of
        None \<Rightarrow> clearSelection st
      | Some startTime \<Rightarrow>
          (let endTime = (case endDate of None \<Rightarrow> startTime | Some e \<Rightarrow> e);
               selStart = findIndex (atOrAfter startTime) (buckets st);
               selEnd = findIndex (atOrAfter endTime) (buckets st);
               selStart = (if selStart = - 1 then 0 else selStart);
               selEnd = (if selEnd = - 1 then int (length (buckets st)) - 1 else selEnd);
               st = st\<lparr>selectionStart := Some selStart, selectionEnd := Some selEnd\<rparr>;
               st = st\<lparr>clearRangeBtn := map_option (\<lambda>_. ''inline-block'') (clearRangeBtn st)\<rparr>;
               st = updateRangeDisplay st;
               st = render st
           in (st, [])))"


text \<open>\<open>init\<close>: the state it leaves, and the error it throws when \<open>processData\<close> throws.\<close>

definition init :: "slider \<Rightarrow> slider \<times> js_error option" where
  "init st =
     (case (histogramBars st, conversationData st) of
        (Some _, Some cs) \<Rightarrow>
          (case processData (timeZone st) cs of
             Inl e \<Rightarrow> (st, Some e)
           | Inr bs \<Rightarrow>
               (let st = st\<lparr>buckets := bs\<rparr>;
                    st = render st
                in (st\<lparr>listening := True\<rparr>, None)))
      | _ \<Rightarrow> (st, None))"

section \<open>Explorer: state\<close>

text \<open>\<open>s.includes(t)\<close> looks for \<open>t\<close> as a contiguous part of \<open>s\<close>.\<close>

fun includesStr :: "'a list \<Rightarrow> 'a list \<Rightarrow> bool" where
  "includesStr [] t = (t = [])"
| "includesStr (c # s) t = (prefix t (c # s) \<or> includesStr s t)"

text \<open>\<open>x || ''\<close> for a \<open>data-\<close> attribute, which is undefined when the attribute is absent.\<close>

definition orEmpty :: "'a list option \<Rightarrow> 'a list" where
  "orEmpty x = (case x of None \<Rightarrow> [] | Some v \<Rightarrow> v)"

text \<open>
  A chat card as the code reads it: its \<open>data-\<close> attributes (\<open>data_date\<close> holding
  \<open>new Date(card.dataset.date)\<close>), the \<open>data-month\<close> of the month group around it
  (\<open>None\<close> when \<open>card.closest('.month-group')\<close> is null), its \<open>style.display\<close> and
  whether it has the class \<open>active\<close>.
\<close>

record chat_card =
  data_project :: "jsstring option"
  data_title :: "jsstring option"
  data_searchable :: "jsstring option"
  data_date :: jsdate
  data_warmup :: "string option"
  data_projectDir :: "string option"
  data_chatId :: "string option"
  monthGroup :: "string option"
  card_display :: string
  card_active :: bool

text \<open>
  A month group: its \<open>data-month\<close>, its \<open>style.display\<close>, and the number shown by its
  \<open>.month-count\<close> child (\<open>None\<close> when it has no such child).
\<close>

record month_group =
  mg_month :: string
  mg_display :: string
  mg_count :: "nat option"

record message =
  msg_role :: string
  msg_timestamp :: "string option"
  msg_content :: "string option"
  msg_htmlContent :: "string option"

text \<open>The chat-detail object that \<open>GET /api/chat/{projectDir}/{chatId}\<close> answers with.\<close>

record chat_detail =
  cd_title :: "string option"
  cd_projectName :: string
  cd_messageCount :: nat
  cd_projectDir :: string
  cd_chatId :: string
  cd_messages :: "message list"

text \<open>
  What the promise of \<open>fetch\<close> settles to: it is rejected, or it is fulfilled with a
  response, of which \<open>selectChat\<close> reads \<open>ok\<close>. What the promise of
  \<open>response.json()\<close> settles to: it is rejected, or it is fulfilled with the
  chat-detail object the body parses to.
\<close>

datatype fetch_outcome = Rejected | Response bool

datatype json_outcome = Unparseable | Parsed chat_detail

text \<open>
  Where a call of the \<open>async\<close> function \<open>selectChat\<close> stands: its promise is settled
  (fulfilled, or rejected with an error), or the call is suspended at one of its two
  \<open>await\<close>s.
\<close>

datatype call_state = Done "js_error option" | AwaitingFetch | AwaitingJson

text \<open>
  The \<open>detail-empty\<close> placeholder: its \<open>style.display\<close> and the text of its
  \<open>.detail-empty-text\<close> child (\<open>None\<close> when \<open>querySelector\<close> finds no such child).
\<close>

record placeholder =
  ph_display :: string
  ph_text :: "string option"

text \<open>
  The Explorer's variables, the page elements it holds (\<open>None\<close> for an element the
  page does not have), and the parts of the platform it touches: the \<open>folder\<close> and
  \<open>chat\<close> query parameters of the current URL, the number of history entries pushed,
  the viewport width and \<open>String.prototype.toLowerCase\<close>, of which nothing is assumed.
  \<open>requests\<close> lists the URLs fetched and \<open>console\<close> the errors given to
  \<open>console.error\<close>. The inner HTML of \<open>detailMessages\<close> is represented by the
  messages it is built from, the text of \<open>detailCount\<close> by the count.
\<close>

record explorer =
  currentFolder :: jsstring
  searchTerm :: jsstring
  dateRangeStart :: "jsdate option"
  dateRangeEnd :: "jsdate option"
  selectedChatId :: "string option"
  chatCache :: "string \<Rightarrow> chat_detail option"
  ignoreWarmup :: bool
  cards :: "chat_card list"
  monthGroups :: "month_group list"
  folderItems :: "(jsstring option \<times> bool) list"
  searchInput :: "jsstring option"
  visibleCount :: "nat option"
  emptyState :: "string option"
  sidebar :: "bool option"
  sidebarOverlay :: "bool option"
  detailEmpty :: "placeholder option"
  detailContent :: "string option"
  detailLoading :: "string option"
  detailTitle :: "string option"
  detailProject :: "string option"
  detailCount :: "nat option"
  detailLink :: "string option"
  detailDownload :: "string option"
  detailMessages :: "message list option"
  query_folder :: "jsstring option"
  query_chat :: "string option"
  pushed :: nat
  innerWidth :: int
  toLowerCase :: "jsstring \<Rightarrow> jsstring"
  requests :: "string list"
  console :: "js_error list"

section \<open>Explorer: filtering\<close>

text \<open>\<open>cardDate < bound\<close> and \<open>cardDate > bound\<close> on a valid card date; false when the bound is invalid.\<close>

definition dateBefore :: "int \<Rightarrow> jsdate \<Rightarrow> bool" where
  "dateBefore t bound = (case bound of InvalidDate \<Rightarrow> False | Date b \<Rightarrow> t < b)"

definition dateAfter :: "int \<Rightarrow> jsdate \<Rightarrow> bool" where
  "dateAfter t bound = (case bound of InvalidDate \<Rightarrow> False | Date b \<Rightarrow> t > b)"

definition matchesFolder :: "explorer \<Rightarrow> chat_card \<Rightarrow> bool" where
  "matchesFolder ex c =
     (currentFolder ex = [] \<or> orEmpty (data_project c) = currentFolder ex)"

definition matchesSearch :: "explorer \<Rightarrow> chat_card \<Rightarrow> bool" where
  "matchesSearch ex c =
     (searchTerm ex = []
      \<or> includesStr (toLowerCase ex (orEmpty (data_title c))) (searchTerm ex)
      \<or> includesStr (toLowerCase ex (orEmpty (data_searchable c))) (searchTerm ex)
      \<or> includesStr (toLowerCase ex (orEmpty (data_project c))) (searchTerm ex))"

definition matchesDateRange :: "explorer \<Rightarrow> chat_card \<Rightarrow> bool" where
  "matchesDateRange ex c =
     (if dateRangeStart ex \<noteq> None \<or> dateRangeEnd ex \<noteq> None then
        (case data_date c of
           InvalidDate \<Rightarrow> True
         | Date cardDate \<Rightarrow>
             \<not> (case dateRangeStart ex of None \<Rightarrow> False | Some b \<Rightarrow> dateBefore cardDate b)
             \<and> \<not> (case dateRangeEnd ex of None \<Rightarrow> False | Some b \<Rightarrow> dateAfter cardDate b))
      else True)"

definition matchesWarmup :: "explorer \<Rightarrow> chat_card \<Rightarrow> bool" where
  "matchesWarmup ex c = (\<not> ignoreWarmup ex \<or> \<not> (data_warmup c = Some ''true''))"

text \<open>The first pass over the cards keeps a count of the visible cards and one per month.\<close>

record filter_pass =
  fp_cards :: "chat_card list"
  visibleCards :: nat
  monthCounts :: "string \<Rightarrow> nat"

definition filterCard :: "bool \<Rightarrow> filter_pass \<Rightarrow> chat_card \<Rightarrow> filter_pass" where
  "filterCard matches acc c =
     (if matches then
        acc\<lparr>fp_cards := fp_cards acc @ [c\<lparr>card_display := []\<rparr>],
            visibleCards := visibleCards acc + 1,
            monthCounts :=
              (case monthGroup c of
                 None \<Rightarrow> monthCounts acc
               | Some month \<Rightarrow> (monthCounts acc)(month := monthCounts acc month + 1))\<rparr>
      else acc\<lparr>fp_cards := fp_cards acc @ [c\<lparr>card_display := ''none''\<rparr>]\<rparr>)"

definition filterGroup :: "(string \<Rightarrow> nat) \<Rightarrow> month_group \<Rightarrow> month_group" where
  "filterGroup counts g =
     (let count = counts (mg_month g) in
      if count > 0 then
        g\<lparr>mg_display := [], mg_count := map_option (\<lambda>_. count) (mg_count g)\<rparr>
      else g\<lparr>mg_display := ''none''\<rparr>)"

definition applyFilter :: "(chat_card \<Rightarrow> bool) \<Rightarrow> explorer \<Rightarrow> explorer" where
  "applyFilter matches ex =
     (let pass = foldl (\<lambda>acc c. filterCard (matches c) acc c)
                   \<lparr>fp_cards = [], visibleCards = 0, monthCounts = (\<lambda>_. 0)\<rparr> (cards ex)
      in ex\<lparr>cards := fp_cards pass,
            monthGroups := map (filterGroup (monthCounts pass)) (monthGroups ex),
            visibleCount := map_option (\<lambda>_. visibleCards pass) (visibleCount ex),
            emptyState :=
              map_option (\<lambda>_. if visibleCards pass = 0 then [] else ''none'') (emptyState ex)\<rparr>)"

text \<open>\<open>filterChats\<close> of \<open>public/js/explorer.js\<close>.\<close>

definition filterChats :: "explorer \<Rightarrow> explorer" where
  "filterChats ex =
     applyFilter (\<lambda>c. matchesFolder ex c \<and> matchesSearch ex c \<and> matchesDateRange ex c) ex"

text \<open>\<open>filterChats\<close> of the variant with a detail panel, which has the warmup filter.\<close>

definition filterChats_detail :: "explorer \<Rightarrow> explorer" where
  "filterChats_detail ex =
     applyFilter (\<lambda>c. matchesFolder ex c \<and> matchesSearch ex c \<and> matchesDateRange ex c
                       \<and> matchesWarmup ex c) ex"

text \<open>
  \<open>searchInput?.value.toLowerCase() || ''\<close>: the empty string when the page has no
  search box.
\<close>

definition searchValue :: "explorer \<Rightarrow> jsstring" where
  "searchValue ex = (case searchInput ex of None \<Rightarrow> [] | Some v \<Rightarrow> toLowerCase ex v)"

definition handleSearch :: "explorer \<Rightarrow> explorer" where
  "handleSearch ex = filterChats (ex\<lparr>searchTerm := searchValue ex\<rparr>)"

definition handleSearch_detail :: "explorer \<Rightarrow> explorer" where
  "handleSearch_detail ex = filterChats_detail (ex\<lparr>searchTerm := searchValue ex\<rparr>)"

definition visible :: "chat_card \<Rightarrow> bool" where
  "visible c = (card_display c \<noteq> ''none'')"

section \<open>Explorer: chat detail\<close>

definition renderChatDetail :: "chat_detail \<Rightarrow> explorer \<Rightarrow> explorer" where
  "renderChatDetail data ex =
     ex\<lparr>detailLoading := map_option (\<lambda>_. ''none'') (detailLoading ex),
        detailContent := map_option (\<lambda>_. ''flex'') (detailContent ex),
        detailTitle :=
          map_option (\<lambda>_. if orEmpty (cd_title data) = [] then ''Chat''
                           else orEmpty (cd_title data)) (detailTitle ex),
        detailProject := map_option (\<lambda>_. cd_projectName data) (detailProject ex),
        detailCount := map_option (\<lambda>_. cd_messageCount data) (detailCount ex),
        detailLink :=
          map_option (\<lambda>_. ''/chat/'' @ cd_projectDir data @ ''/'' @ cd_chatId data)
            (detailLink ex),
        detailDownload :=
          map_option (\<lambda>_. ''/download/'' @ cd_projectDir data @ ''/'' @ cd_chatId data)
            (detailDownload ex),
        detailMessages := map_option (\<lambda>_. cd_messages data) (detailMessages ex)\<rparr>"

text \<open>The statements of \<open>selectChat\<close> before its \<open>try\<close>.\<close>

definition selectChat_begin :: "string \<Rightarrow> string \<Rightarrow> bool \<Rightarrow> explorer \<Rightarrow> explorer" where
  "selectChat_begin projectDir chatId updateUrl ex =
     (let ex = ex\<lparr>selectedChatId := Some (projectDir @ ''/'' @ chatId)\<rparr>;
          ex = ex\<lparr>cards :=
                   map (\<lambda>c. c\<lparr>card_active :=
                                (data_projectDir c = Some projectDir
                                 \<and> data_chatId c = Some chatId)\<rparr>) (cards ex)\<rparr>;
          ex = ex\<lparr>detailEmpty :=
                   map_option (\<lambda>p. p\<lparr>ph_display := ''none''\<rparr>) (detailEmpty ex),
                  detailContent := map_option (\<lambda>_. ''none'') (detailContent ex),
                  detailLoading := map_option (\<lambda>_. ''flex'') (detailLoading ex)\<rparr>
      in if updateUrl
         then ex\<lparr>query_chat := selectedChatId ex, pushed := pushed ex + 1\<rparr>
         else ex)"

text \<open>
  The \<open>catch\<close> block of \<open>selectChat\<close>. It returns the state and, when the block itself
  throws, the error the promise of \<open>selectChat\<close> is rejected with.
\<close>

definition loadFailed :: "js_error \<Rightarrow> explorer \<Rightarrow> explorer \<times> js_error option" where
  "loadFailed error ex =
     (let ex = ex\<lparr>console := console ex @ [error]\<rparr>;
          ex = ex\<lparr>detailLoading := map_option (\<lambda>_. ''none'') (detailLoading ex)\<rparr>
      in case detailEmpty ex of
           None \<Rightarrow> (ex, None)
         | Some ph \<Rightarrow>
             (let ex = ex\<lparr>detailEmpty := Some (ph\<lparr>ph_display := ''flex''\<rparr>)\<rparr>
              in case ph_text ph of
                   None \<Rightarrow> (ex, Some TypeError)
                 | Some _ \<Rightarrow>
                     (ex\<lparr>detailEmpty :=
                           Some \<lparr>ph_display = ''flex'',
                                 ph_text = Some ''Failed to load chat''\<rparr>\<rparr>, None)))"

text \<open>
  \<open>chatCache[selectedChatId]\<close>: the key is the value the variable \<open>selectedChatId\<close>
  has when the expression is evaluated (\<open>null\<close> makes the key \<open>'null'\<close>).
\<close>

definition cacheKey :: "explorer \<Rightarrow> string" where
  "cacheKey ex = (case selectedChatId ex of None \<Rightarrow> ''null'' | Some k \<Rightarrow> k)"

text \<open>
  A call of \<open>selectChat\<close> runs at once up to its first \<open>await\<close>: with the chat in the
  cache it renders and is done, otherwise it sends the request and is suspended until
  the promise of \<open>fetch\<close> settles.
\<close>

definition selectChat_call ::
  "string \<Rightarrow> string \<Rightarrow> bool \<Rightarrow> explorer \<Rightarrow> explorer \<times> call_state" where
  "selectChat_call projectDir chatId updateUrl ex =
     (let ex = selectChat_begin projectDir chatId updateUrl ex
      in case chatCache ex (cacheKey ex) of
           Some data \<Rightarrow> (renderChatDetail data ex, Done None)
         | None \<Rightarrow>
             (ex\<lparr>requests := requests ex @ [''/api/chat/'' @ projectDir @ ''/'' @ chatId]\<rparr>,
              AwaitingFetch))"

text \<open>
  The call resumes when the promise of \<open>fetch\<close> has settled, in the state the page is
  in by then: a rejection and a response that is not \<open>ok\<close> lead to the \<open>catch\<close>
  block, an \<open>ok\<close> response to the second \<open>await\<close>.
\<close>

definition fetchSettled :: "fetch_outcome \<Rightarrow> explorer \<Rightarrow> explorer \<times> call_state" where
  "fetchSettled outcome ex =
     (case outcome of
        Rejected \<Rightarrow> (let (ex, thrown) = loadFailed FetchRejected ex in (ex, Done thrown))
      | Response ok \<Rightarrow>
          if \<not> ok
          then (let (ex, thrown) = loadFailed (Error ''Failed to load chat'') ex
                in (ex, Done thrown))
          else (ex, AwaitingJson))"

text \<open>
  The call resumes when the promise of \<open>response.json()\<close> has settled, in the state the
  page is in by then: the object is stored under the key \<open>selectedChatId\<close> has at that
  moment, and rendered.
\<close>

definition jsonSettled :: "json_outcome \<Rightarrow> explorer \<Rightarrow> explorer \<times> js_error option" where
  "jsonSettled outcome ex =
     (case outcome of
        Unparseable \<Rightarrow> loadFailed JsonRejected ex
      | Parsed data \<Rightarrow>
          (renderChatDetail data (ex\<lparr>chatCache := (chatCache ex)(cacheKey ex \<mapsto> data)\<rparr>),
           None))"

text \<open>
  A call of \<open>selectChat\<close> run to the end of its promise with nothing else running in
  between. \<open>fetched\<close> and \<open>parsed\<close> are what the two promises settle to if the call
  gets to await them.
\<close>

definition selectChat ::
  "string \<Rightarrow> string \<Rightarrow> bool \<Rightarrow> fetch_outcome \<Rightarrow> json_outcome \<Rightarrow> explorer
     \<Rightarrow> explorer \<times> js_error option" where
  "selectChat projectDir chatId updateUrl fetched parsed ex =
     (case selectChat_call projectDir chatId updateUrl ex of
        (ex, Done thrown) \<Rightarrow> (ex, thrown)
      | (ex, _) \<Rightarrow>
          (case fetchSettled fetched ex of
             (ex, Done thrown) \<Rightarrow> (ex, thrown)
           | (ex, _) \<Rightarrow> jsonSettled parsed ex))"

section \<open>The page: Explorer and Time Slider\<close>






section \<open>Notions used in the statements\<close>

subsection \<open>Buckets\<close>

text \<open>A time zone whose offset from UTC never changes.\<close>

definition fixedOffset :: "zone \<Rightarrow> bool" where
  "fixedOffset z = (\<forall>t. \<not> dstAtUtc z t \<and> \<not> dstAtLocal z t)"

text \<open>The number of days from one bucket to the next.\<close>

definition stepDays :: "granularity \<Rightarrow> int" where
  "stepDays g = (if g = Week then 7 else 1)"

text \<open>The number of rounds of the loop from \<open>current\<close> to \<open>endDate\<close> in such a zone.\<close>

definition bucketCount :: "granularity \<Rightarrow> int \<Rightarrow> int \<Rightarrow> nat" where
  "bucketCount g current endDate =
     (if current \<le> endDate
      then nat ((endDate - current) div (stepDays g * msPerDay)) + 1 else 0)"

text \<open>The time at which local day \<open>n\<close> starts in such a zone.\<close>

definition localMidnight :: "zone \<Rightarrow> int \<Rightarrow> int" where
  "localMidnight z n = n * msPerDay - stdOffset z"

text \<open>The local day number of the Sunday on or before the local day of \<open>t\<close>.\<close>

definition weekStartDay :: "zone \<Rightarrow> int \<Rightarrow> int" where
  "weekStartDay z t = localDay z t - getDay z t"

text \<open>The key of a date in such a zone, when the start of its week is in the range of \<open>Date\<close>.\<close>

definition keyOf :: "zone \<Rightarrow> granularity \<Rightarrow> int \<Rightarrow> int" where
  "keyOf z g t = (if g = Week then isoDate (t - getDay z t * msPerDay) else isoDate t)"

subsection \<open>Selection\<close>

text \<open>An index of a bar of the current histogram.\<close>

definition inBars :: "slider \<Rightarrow> int \<Rightarrow> bool" where
  "inBars st i = (0 \<le> i \<and> i < int (length (buckets st)))"

text \<open>Both selection indices, where not null, are indices of bars.\<close>

definition selectionInBars :: "slider \<Rightarrow> bool" where
  "selectionInBars st =
     ((case selectionStart st of None \<Rightarrow> True | Some s \<Rightarrow> inBars st s)
      \<and> (case selectionEnd st of None \<Rightarrow> True | Some e \<Rightarrow> inBars st e))"

text \<open>\<open>0 <= selectionStart <= selectionEnd < bucket count\<close>, if both are non-null.\<close>

definition selectionNormal :: "slider \<Rightarrow> bool" where
  "selectionNormal st =
     (case (selectionStart st, selectionEnd st) of
        (Some s, Some e) \<Rightarrow> 0 \<le> s \<and> s \<le> e \<and> e < int (length (buckets st))
      | _ \<Rightarrow> True)"

text \<open>\<open>d\<close> is the start of the earliest bucket that starts at or after \<open>t\<close>.\<close>

definition isFirstAtOrAfter :: "bucket list \<Rightarrow> int \<Rightarrow> int \<Rightarrow> bool" where
  "isFirstAtOrAfter bs t d =
     (t \<le> d \<and> d \<in> date ` set bs \<and> (\<forall>b \<in> set bs. t \<le> date b \<longrightarrow> d \<le> date b))"

text \<open>No bucket starts at or after \<open>t\<close>.\<close>

definition noneAtOrAfter :: "bucket list \<Rightarrow> int \<Rightarrow> bool" where
  "noneAtOrAfter bs t = (\<forall>b \<in> set bs. date b < t)"

text \<open>A drag: mouse down on a bar, mouse moves, mouse up.\<close>

definition drag :: "int \<Rightarrow> int option list \<Rightarrow> slider \<Rightarrow> slider \<times> notification list" where
  "drag i moves st =
     handleMouseUp (foldl (\<lambda>s j. handleMouseMove j s) (handleMouseDown (Some i) st) moves)"

text \<open>
  A drag that began in state \<open>st0\<close> is under way: the mouse is down, both selection
  indices are set and are indices of bars, and the buckets are those of \<open>st0\<close>.
\<close>

definition dragging :: "slider \<Rightarrow> slider \<Rightarrow> bool" where
  "dragging st0 st =
     (isDragging st \<and> selectionInBars st \<and> selectionStart st \<noteq> None
      \<and> selectionEnd st \<noteq> None \<and> buckets st = buckets st0)"

subsection \<open>Failed loads\<close>

text \<open>
  The error the \<open>try\<close> block of \<open>selectChat\<close> ends with, for what the two promises
  settle to: the rejection of \<open>fetch\<close>, the \<open>Error\<close> thrown on a response that is
  not \<open>ok\<close>, or the rejection of \<open>response.json()\<close>; none when the body parses.
\<close>

definition caught :: "fetch_outcome \<Rightarrow> json_outcome \<Rightarrow> js_error option" where
  "caught fetched parsed =
     (case fetched of
        Rejected \<Rightarrow> Some FetchRejected
      | Response ok \<Rightarrow>
          if \<not> ok then Some (Error ''Failed to load chat'')
          else (case parsed of Unparseable \<Rightarrow> Some JsonRejected | Parsed data \<Rightarrow> None))"

text \<open>A sequence of calls of \<open>selectChat\<close>, each run to its end before the next begins.\<close>

fun selectChats ::
  "(string \<times> string \<times> bool \<times> fetch_outcome \<times> json_outcome) list \<Rightarrow> explorer \<Rightarrow> explorer" where
  "selectChats [] ex = ex"
| "selectChats ((projectDir, chatId, updateUrl, fetched, parsed) # calls) ex =
     selectChats calls (fst (selectChat projectDir chatId updateUrl fetched parsed ex))"

subsection \<open>The filter predicates, as the specification words them\<close>

text \<open>Exact equality of the card's project against the active folder, or no active folder.\<close>

definition spec_folderMatch :: "jsstring \<Rightarrow> chat_card \<Rightarrow> bool" where
  "spec_folderMatch folder c = (folder = [] \<or> orEmpty (data_project c) = folder)"

text \<open>
  \<open>t\<close> is a substring of \<open>s\<close>, letter case ignored: with both put in lower case by
  \<open>lower\<close>, \<open>t\<close> is a contiguous part of \<open>s\<close>.
\<close>

definition spec_ciSubstring :: "(jsstring \<Rightarrow> jsstring) \<Rightarrow> jsstring \<Rightarrow> jsstring \<Rightarrow> bool" where
  "spec_ciSubstring lower t s = (\<exists>pre post. lower s = pre @ lower t @ post)"

text \<open>The term is found in the title, the searchable blob or the project name.\<close>

definition spec_searchMatch :: "(jsstring \<Rightarrow> jsstring) \<Rightarrow> jsstring \<Rightarrow> chat_card \<Rightarrow> bool" where
  "spec_searchMatch lower term c =
     (spec_ciSubstring lower term (orEmpty (data_title c))
      \<or> spec_ciSubstring lower term (orEmpty (data_searchable c))
      \<or> spec_ciSubstring lower term (orEmpty (data_project c)))"


text \<open>Cards flagged warmup are hidden while the exclusion toggle is active.\<close>

definition spec_warmupMatch :: "bool \<Rightarrow> chat_card \<Rightarrow> bool" where
  "spec_warmupMatch exclude c = (\<not> (exclude \<and> data_warmup c = Some ''true''))"

subsection \<open>Dates well inside the range of \<open>Date\<close>\<close>

text \<open>
  Every valid date of the conversations is at least two weeks away from both ends of the
  range of time values.
\<close>

definition datesInside :: "conversation list \<Rightarrow> bool" where
  "datesInside convs =
     list_all (\<lambda>d. - maxTime + 14 * msPerDay \<le> d \<and> d \<le> maxTime - 14 * msPerDay)
       (validDates convs)"

subsection \<open>Sample states\<close>

text \<open>
  Three time zones: UTC; UTC+1 without daylight saving time; and Europe/London in 2024,
  where daylight saving time is in effect from 2024-03-31T01:00:00Z to
  2024-10-27T01:00:00Z, that is for the local times from 02:00 on 31 March to 02:00 on
  27 October.
\<close>

definition utc :: zone where
  "utc = \<lparr>stdOffset = 0, dstAtUtc = (\<lambda>t. False), dstAtLocal = (\<lambda>l. False)\<rparr>"

definition utcPlus1 :: zone where
  "utcPlus1 = \<lparr>stdOffset = 3600000, dstAtUtc = (\<lambda>t. False), dstAtLocal = (\<lambda>l. False)\<rparr>"

definition london :: zone where
  "london =
     \<lparr>stdOffset = 0,
      dstAtUtc = (\<lambda>t. 1711846800000 \<le> t \<and> t < 1729990800000),
      dstAtLocal = (\<lambda>l. 1711850400000 \<le> l \<and> l < 1729994400000)\<rparr>"

text \<open>
  Two conversations, dated 2024-01-01T00:00:00Z and 2024-03-10T00:00:00Z; one dated
  2024-01-01T12:00:00Z; two dated 2024-03-30T12:00:00Z and 2024-04-02T12:00:00Z; one
  dated +275760-09-13T00:00:00Z, the latest time a \<open>Date\<close> can hold; and two dated
  -271821-04-20T00:00:00Z, the earliest time a \<open>Date\<close> can hold, and
  1970-01-01T00:00:00Z.
\<close>

definition twoConvs :: "conversation list" where
  "twoConvs =
     [\<lparr>conv_project = str ''a'', conv_date = Date 1704067200000, conv_messages = Some 5\<rparr>,
      \<lparr>conv_project = str ''b'', conv_date = Date 1710028800000, conv_messages = Some 2\<rparr>]"

definition oneConv :: "conversation list" where
  "oneConv =
     [\<lparr>conv_project = str ''a'', conv_date = Date 1704110400000, conv_messages = Some 5\<rparr>]"

definition springConvs :: "conversation list" where
  "springConvs =
     [\<lparr>conv_project = str ''a'', conv_date = Date 1711800000000, conv_messages = Some 5\<rparr>,
      \<lparr>conv_project = str ''a'', conv_date = Date 1712059200000, conv_messages = Some 2\<rparr>]"

definition latestConv :: "conversation list" where
  "latestConv =
     [\<lparr>conv_project = str ''a'', conv_date = Date 8640000000000000, conv_messages = Some 5\<rparr>]"


text \<open>The Time Slider before anything has happened, on a page with all its elements, in UTC.\<close>

definition slider0 :: slider where
  "slider0 =
     \<lparr>currentMetric = Conversations, buckets = [], currentFolder_ts = [],
      selectionStart = None, selectionEnd = None, isDragging = False,
      dragStartIndex = None, onRangeChangeCallback = False,
      histogramBars = Some NoData, timeLabels = [], metricLabel = Some ''Conversations'',
      clearRangeBtn = Some ''none'',
      rangeDisplay = Some \<lparr>rd_display = ''none'', rd_text = NoText\<rparr>,
      histogramSelection = Some \<lparr>ov_display = ''none'', ov_left = 0, ov_width = 0\<rparr>,
      conversationData = None, timeZone = utc, listening = False\<rparr>"

text \<open>Three daily buckets: 1970-01-01, 1970-01-02 and 1970-01-03.\<close>

definition threeDays :: "bucket list" where
  "threeDays =
     [\<lparr>date = 0, key = 0, conversations = 1, messages = 1, granularity = Day\<rparr>,
      \<lparr>date = 86400000, key = 1, conversations = 0, messages = 0, granularity = Day\<rparr>,
      \<lparr>date = 172800000, key = 2, conversations = 1, messages = 1, granularity = Day\<rparr>]"

text \<open>The Time Slider showing \<open>threeDays\<close>, with a callback registered.\<close>

definition slider3 :: slider where
  "slider3 = slider0\<lparr>buckets := threeDays, onRangeChangeCallback := True\<rparr>"

text \<open>
  A lower-casing of ASCII letters, for the sample pages, whose strings are ASCII: on
  these it does what \<open>toLowerCase\<close> does.
\<close>

definition asciiLower :: "jsstring \<Rightarrow> jsstring" where
  "asciiLower s = map (\<lambda>c. if 65 \<le> c \<and> c \<le> 90 then c + 32 else c) s"

definition card0 :: chat_card where
  "card0 =
     \<lparr>data_project = Some (str ''proj''), data_title = Some (str ''Fix the Parser''),
      data_searchable = Some (str ''fix the parser tokens''),
      data_date = Date 1704110400000,
      data_warmup = Some ''false'', data_projectDir = Some ''proj'',
      data_chatId = Some ''chat1'', monthGroup = Some ''2024-01'', card_display = [],
      card_active = False\<rparr>"

text \<open>The Explorer before anything has happened, on a page with all its elements.\<close>

definition explorer0 :: explorer where
  "explorer0 =
     \<lparr>currentFolder = [], searchTerm = [], dateRangeStart = None, dateRangeEnd = None,
      selectedChatId = None, chatCache = (\<lambda>_. None), ignoreWarmup = True,
      cards = [card0],
      monthGroups = [\<lparr>mg_month = ''2024-01'', mg_display = [], mg_count = Some 1\<rparr>],
      folderItems = [(Some (str ''proj''), False)], searchInput = Some [],
      visibleCount = Some 1, emptyState = Some ''none'',
      sidebar = Some False, sidebarOverlay = Some False,
      detailEmpty = Some \<lparr>ph_display = ''flex'', ph_text = Some ''Select a chat''\<rparr>,
      detailContent = Some ''none'', detailLoading = Some ''none'',
      detailTitle = Some [], detailProject = Some [], detailCount = Some 0,
      detailLink = Some [], detailDownload = Some [], detailMessages = Some [],
      query_folder = None, query_chat = None, pushed = 0, innerWidth = 1280,
      toLowerCase = asciiLower, requests = [], console = []\<rparr>"

text \<open>The chat-detail object of the chat \<open>proj1/chat1\<close>.\<close>

definition chat1 :: chat_detail where
  "chat1 =
     \<lparr>cd_title = Some ''Fix the Parser'', cd_projectName = ''proj1'', cd_messageCount = 1,
      cd_projectDir = ''proj1'', cd_chatId = ''chat1'',
      cd_messages = [\<lparr>msg_role = ''user'', msg_timestamp = None,
                      msg_content = Some ''hello'', msg_htmlContent = None\<rparr>]\<rparr>"

text \<open>
  A page with two cards, the second with the date attribute \<open>not-a-date\<close>, after
  \<open>PARSER\<close> was typed in the search box and 2024-01-01 was selected in the histogram.
\<close>

definition explorerRange :: explorer where
  "explorerRange =
     explorer0\<lparr>searchTerm := str ''parser'', searchInput := Some (str ''PARSER''),
       dateRangeStart := Some (Date 1704067200000),
       dateRangeEnd := Some (Date 1704153599999),
       cards := [card0, card0\<lparr>data_date := InvalidDate\<rparr>]\<rparr>"







text \<open>
  Two calls of \<open>selectChat\<close> that overlap. \<open>proj1/chat1\<close> is selected; before its
  request is answered \<open>proj1/chat2\<close> is selected; then the first request is answered
  and its body parsed; then the second request fails.
\<close>

definition overlap1 :: explorer where
  "overlap1 = fst (selectChat_call ''proj1'' ''chat1'' True explorer0)"

definition overlap2 :: explorer where
  "overlap2 = fst (selectChat_call ''proj1'' ''chat2'' True overlap1)"

definition overlap3 :: explorer where
  "overlap3 = fst (fetchSettled (Response True) overlap2)"

definition overlap4 :: explorer where
  "overlap4 = fst (jsonSettled (Parsed chat1) overlap3)"

definition overlap5 :: explorer where
  "overlap5 = fst (fetchSettled Rejected overlap4)"
section \<open>Facts about dates and buckets\<close>

lemma msPerDay_pos: "0 < msPerDay" by (simp add: msPerDay_def)

lemma getDay_range: "0 \<le> getDay z t \<and> getDay z t < 7"
  by (simp add: getDay_def)

text \<open>A date moved by \<open>n\<close> days on the local clock is at most an hour off \<open>n\<close> times 24 hours.\<close>

lemma addDays_cases:
  "addDays z t n = timeClip (t + n * msPerDay - msPerHour)
   \<or> addDays z t n = timeClip (t + n * msPerDay)
   \<or> addDays z t n = timeClip (t + n * msPerDay + msPerHour)"
proof -
  define k where "k = offsetAtUtc z t - offsetAtLocal z (localTime z t + n * msPerDay)"
  have "k = - msPerHour \<or> k = 0 \<or> k = msPerHour"
    by (simp add: k_def offsetAtUtc_def offsetAtLocal_def)
  moreover have "utcTime z (localTime z t + n * msPerDay) = t + n * msPerDay + k"
    unfolding k_def utcTime_def by (simp add: localTime_def)
  then have "addDays z t n = timeClip (t + n * msPerDay + k)"
    by (simp only: addDays_def)
  ultimately show ?thesis by auto
qed



lemma addDays_valid:
  "- maxTime + msPerHour \<le> t + n * msPerDay \<Longrightarrow> t + n * msPerDay \<le> maxTime - msPerHour \<Longrightarrow>
   \<exists>t'. addDays z t n = Date t'"
  using addDays_cases [of z t n] by (auto simp: timeClip_def msPerHour_def)

lemma getBucketKey_returns:
  assumes "- maxTime + 6 * msPerDay + msPerHour \<le> d" and "d \<le> maxTime - msPerHour"
  shows "\<exists>k. getBucketKey z d g = Inr k"
proof (cases g)
  case Day
  then show ?thesis by (simp add: getBucketKey_def)
next
  case Week
  have r: "0 \<le> getDay z d \<and> getDay z d \<le> 6" using getDay_range [of z d] by simp
  then have "getDay z d * msPerDay \<le> 6 * msPerDay" "0 \<le> getDay z d * msPerDay"
    by (simp_all add: msPerDay_def)
  then have "- maxTime + msPerHour \<le> d + (- getDay z d) * msPerDay"
    and "d + (- getDay z d) * msPerDay \<le> maxTime - msPerHour"
    using assms by (simp_all add: msPerDay_def msPerHour_def)
  from addDays_valid [OF this] obtain t' where "addDays z d (- getDay z d) = Date t'" by blast
  then show ?thesis using Week by (simp add: getBucketKey_def)
qed


lemma aggregate_returns:
  "(\<And>d. conv_date c = Date d \<Longrightarrow> - maxTime + 6 * msPerDay + msPerHour \<le> d \<and> d \<le> maxTime - msPerHour) \<Longrightarrow>
   \<exists>m'. aggregate z g m c = Inr m'"
proof (cases "conv_date c")
  case InvalidDate
  then show ?thesis by (simp add: aggregate_def)
next
  case (Date d)
  assume "\<And>d. conv_date c = Date d \<Longrightarrow> - maxTime + 6 * msPerDay + msPerHour \<le> d \<and> d \<le> maxTime - msPerHour"
  from this [OF Date] getBucketKey_returns [where d = d and z = z and g = g]
  obtain k where "getBucketKey z d g = Inr k" by blast
  then show ?thesis using Date by (simp add: aggregate_def split: option.splits)
qed

lemma aggregateAll_returns:
  "list_all (\<lambda>d. - maxTime + 6 * msPerDay + msPerHour \<le> d \<and> d \<le> maxTime - msPerHour) (validDates convs) \<Longrightarrow>
   \<exists>m'. aggregateAll z g m convs = Inr m'"
proof (induction convs arbitrary: m)
  case Nil
  then show ?case by simp
next
  case (Cons c convs)
  have a: "\<And>d. conv_date c = Date d \<Longrightarrow> - maxTime + 6 * msPerDay + msPerHour \<le> d \<and> d \<le> maxTime - msPerHour"
    using Cons.prems by simp
  have b: "list_all (\<lambda>d. - maxTime + 6 * msPerDay + msPerHour \<le> d \<and> d \<le> maxTime - msPerHour) (validDates convs)"
    using Cons.prems by (simp split: jsdate.splits)
  from aggregate_returns [of c z g m, OF a] obtain m1 where m1: "aggregate z g m c = Inr m1" by blast
  from Cons.IH [OF b, of m1] show ?case by (simp add: m1)
qed







text \<open>The buckets \<open>processData\<close> assigns are sorted by date.\<close>

lemma processData_sorted: "processData z convs = Inr bs \<Longrightarrow> sorted (map date bs)"
  by (auto simp: processData_def createBuckets_def Let_def split: list.splits sum.splits)


text \<open>
  In UTC the daily key is the UTC date and, for a date six days or more after the
  earliest time a \<open>Date\<close> can hold, the weekly key is the UTC date of the Sunday on or
  before it.
\<close>

lemma getBucketKey_utc:
  "getBucketKey utc t Day = Inr (isoDate t)"
  "- maxTime + 6 * msPerDay \<le> t \<Longrightarrow> t \<le> maxTime \<Longrightarrow>
   \<exists>k. getBucketKey utc t Week = Inr k \<and> weekdayOfDay k = 0
       \<and> k \<le> isoDate t \<and> isoDate t < k + 7"
proof -
  show "getBucketKey utc t Day = Inr (isoDate t)" by (simp add: getBucketKey_def)
next
  assume lo: "- maxTime + 6 * msPerDay \<le> t" and hi: "t \<le> maxTime"
  define w where "w = (isoDate t + 4) mod 7"
  have w: "0 \<le> w \<and> w \<le> 6" by (simp add: w_def)
  have g: "getDay utc t = w"
    by (simp add: getDay_def localDay_def localTime_def offsetAtUtc_def utc_def isoDate_def w_def)
  have a: "addDays utc t (- w) = Date (t - w * msPerDay)"
    using lo hi w
    by (simp add: addDays_def utcTime_def localTime_def offsetAtUtc_def offsetAtLocal_def
          utc_def timeClip_def msPerDay_def)
  have "(t + (- w) * msPerDay) div msPerDay = - w + t div msPerDay"
    using msPerDay_pos by (intro div_mult_self1) simp
  then have i: "isoDate (t - w * msPerDay) = isoDate t - w"
    by (simp add: isoDate_def)
  have k: "getBucketKey utc t Week = Inr (isoDate t - w)"
    by (simp add: getBucketKey_def g a i)
  have "weekdayOfDay (isoDate t - w) = 0"
    unfolding weekdayOfDay_def w_def by presburger
  then show "\<exists>k. getBucketKey utc t Week = Inr k \<and> weekdayOfDay k = 0
       \<and> k \<le> isoDate t \<and> isoDate t < k + 7"
    using k w by simp
qed

lemma fixed_localDay: "fixedOffset z \<Longrightarrow> localDay z t = (t + stdOffset z) div msPerDay"
  by (simp add: fixedOffset_def localDay_def localTime_def offsetAtUtc_def)

lemma fixed_addDays: "fixedOffset z \<Longrightarrow> addDays z t n = timeClip (t + n * msPerDay)"
  by (simp add: fixedOffset_def addDays_def utcTime_def localTime_def offsetAtUtc_def
        offsetAtLocal_def)

lemma fixed_startOfDay: "fixedOffset z \<Longrightarrow> startOfDay z t = timeClip (localMidnight z (localDay z t))"
  by (simp add: fixedOffset_def startOfDay_def utcTime_def offsetAtLocal_def localMidnight_def)

lemma fixed_endOfDay:
  "fixedOffset z \<Longrightarrow>
   endOfDay z t = timeClip (localMidnight z (localDay z t) + (msPerDay - 1))"
proof -
  assume "fixedOffset z"
  then have "utcTime z (localDay z t * msPerDay + (msPerDay - 1)) =
      localMidnight z (localDay z t) + (msPerDay - 1)"
    by (simp add: fixedOffset_def utcTime_def offsetAtLocal_def localMidnight_def)
  then show ?thesis by (simp only: endOfDay_def)
qed

lemma fixed_localDay_add:
  "fixedOffset z \<Longrightarrow> localDay z (t + n * msPerDay) = localDay z t + n"
proof -
  assume f: "fixedOffset z"
  have "(t + n * msPerDay + stdOffset z) div msPerDay = (t + stdOffset z + n * msPerDay) div msPerDay"
    by (simp add: algebra_simps)
  also have "\<dots> = (t + stdOffset z) div msPerDay + n"
    using msPerDay_pos by simp
  finally show ?thesis by (simp add: fixed_localDay [OF f])
qed

lemma isoDate_add: "isoDate (t + n * msPerDay) = isoDate t + n"
  using msPerDay_pos by (simp add: isoDate_def)

lemma fixed_getDay_add7: "fixedOffset z \<Longrightarrow> getDay z (t + 7 * msPerDay) = getDay z t"
  unfolding getDay_def by (simp add: fixed_localDay_add) presburger

lemma keyOf_step:
  "fixedOffset z \<Longrightarrow> keyOf z g (t + stepDays g * msPerDay) = keyOf z g t + stepDays g"
proof (cases g)
  case Day
  then show ?thesis using isoDate_add [of t 1] by (simp add: keyOf_def stepDays_def)
next
  case Week
  assume f: "fixedOffset z"
  have e: "t + 7 * msPerDay - getDay z t * msPerDay = (t - getDay z t * msPerDay) + 7 * msPerDay"
    by simp
  have "isoDate (t + 7 * msPerDay - getDay z t * msPerDay) =
      isoDate (t - getDay z t * msPerDay) + 7"
    unfolding e by (rule isoDate_add)
  then show ?thesis
    using Week by (simp add: keyOf_def stepDays_def fixed_getDay_add7 [OF f])
qed

lemma fixed_getBucketKey:
  assumes "fixedOffset z" "- maxTime + 6 * msPerDay \<le> t" "t \<le> maxTime"
  shows "getBucketKey z t g = Inr (keyOf z g t)"
proof (cases g)
  case Day
  then show ?thesis by (simp add: getBucketKey_def keyOf_def)
next
  case Week
  have r: "0 \<le> getDay z t \<and> getDay z t \<le> 6" using getDay_range [of z t] by simp
  then have "0 \<le> getDay z t * msPerDay \<and> getDay z t * msPerDay \<le> 6 * msPerDay"
    by (simp add: msPerDay_def)
  then have "timeClip (t + (- getDay z t) * msPerDay) = Date (t - getDay z t * msPerDay)"
    using assms(2,3) by (simp add: timeClip_def)
  then show ?thesis
    using Week by (simp add: getBucketKey_def keyOf_def fixed_addDays [OF assms(1)])
qed

lemma map_set_fresh: "k \<notin> fst ` set m \<Longrightarrow> map_set k v m = m @ [(k, v)]"
  by (induction m) auto

lemma bucketCount_step:
  "current \<le> endDate \<Longrightarrow>
   bucketCount g current endDate =
     Suc (bucketCount g (current + stepDays g * msPerDay) endDate)"
proof -
  assume le: "current \<le> endDate"
  define s where "s = stepDays g * msPerDay"
  have spos: "0 < s" using msPerDay_pos by (simp add: s_def stepDays_def)
  show ?thesis
  proof (cases "current + s \<le> endDate")
    case True
    define x where "x = endDate - (current + s)"
    have "(x + s) div s = x div s + 1" using spos div_add_self2 [of s x] by linarith
    moreover have "x + s = endDate - current" by (simp add: x_def)
    ultimately have e: "(endDate - current) div s = (endDate - (current + s)) div s + 1"
      by (simp add: x_def)
    have nn: "0 \<le> (endDate - (current + s)) div s" using True spos by (simp add: pos_imp_zdiv_nonneg_iff)
    show ?thesis using le True nn unfolding bucketCount_def s_def[symmetric] e
      by (simp add: nat_add_distrib)
  next
    case False
    then have "(endDate - current) div s = 0" using le spos by (simp add: div_pos_pos_trivial)
    then show ?thesis using le False unfolding bucketCount_def s_def[symmetric] by simp
  qed
qed

lemma emptyBuckets_eq:
  "fixedOffset z \<Longrightarrow> - maxTime + 6 * msPerDay \<le> current \<Longrightarrow>
   endDate \<le> maxTime - 7 * msPerDay \<Longrightarrow>
   \<forall>k \<in> fst ` set m. k < keyOf z g current \<Longrightarrow>
   emptyBuckets z g (Date current) (Date endDate) m =
     Inr (m @ map (\<lambda>i. (keyOf z g current + int i * stepDays g,
                   \<lparr>date = current + int i * stepDays g * msPerDay,
                    key = keyOf z g current + int i * stepDays g,
                    conversations = 0, messages = 0, granularity = g\<rparr>))
            [0..<bucketCount g current endDate])"
proof (induction "bucketCount g current endDate" arbitrary: current m)
  case 0
  then have "\<not> current \<le> endDate" by (simp add: bucketCount_def split: if_splits)
  then show ?case using 0 by (subst emptyBuckets.simps) (simp add: bucketCount_def)
next
  case (Suc n)
  then have le: "current \<le> endDate" by (simp add: bucketCount_def split: if_splits)
  let ?k = "keyOf z g current"
  let ?b = "\<lparr>date = current, key = ?k, conversations = 0, messages = 0, granularity = g\<rparr>"
  let ?next = "current + stepDays g * msPerDay"
  have f: "fixedOffset z" by fact
  have sp: "0 < stepDays g" "stepDays g \<le> 7" by (simp_all add: stepDays_def)
  have smd: "0 < stepDays g * msPerDay" "stepDays g * msPerDay \<le> 7 * msPerDay"
    using sp by (simp_all add: msPerDay_def)
  have hi: "current \<le> maxTime" using le Suc.prems(3) by (simp add: msPerDay_def)
  have key: "getBucketKey z current g = Inr ?k"
    by (rule fixed_getBucketKey [OF f Suc.prems(2) hi])
  have nx: "(if g = Week then addDays z current 7 else addDays z current 1) = Date ?next"
    using le Suc.prems(2,3) smd
    by (simp add: fixed_addDays [OF f] timeClip_def stepDays_def msPerDay_def)
  have fresh: "?k \<notin> fst ` set m" using Suc.prems(4) by auto
  have set_eq: "map_set ?k ?b m = m @ [(?k, ?b)]" by (rule map_set_fresh [OF fresh])
  have unf: "emptyBuckets z g (Date current) (Date endDate) m =
      emptyBuckets z g (Date ?next) (Date endDate) (map_set ?k ?b m)"
    using le key nx by (subst emptyBuckets.simps) simp
  have n: "n = bucketCount g ?next endDate"
    using Suc.hyps(2) bucketCount_step [OF le, of g] by simp
  have below: "\<forall>k \<in> fst ` set (map_set ?k ?b m). k < keyOf z g ?next"
    using Suc.prems(4) sp by (auto simp: set_eq keyOf_step [OF f])
  have lo': "- maxTime + 6 * msPerDay \<le> ?next" using Suc.prems(2) smd by simp
  have IH: "emptyBuckets z g (Date ?next) (Date endDate) (map_set ?k ?b m) =
     Inr (map_set ?k ?b m @ map (\<lambda>i. (keyOf z g ?next + int i * stepDays g,
                   \<lparr>date = ?next + int i * stepDays g * msPerDay,
                    key = keyOf z g ?next + int i * stepDays g,
                    conversations = 0, messages = 0, granularity = g\<rparr>))
            [0..<bucketCount g ?next endDate])"
    by (rule Suc.hyps(1) [OF n f lo' Suc.prems(3) below])
  have cnt: "[0..<bucketCount g current endDate] = 0 # map Suc [0..<bucketCount g ?next endDate]"
    unfolding bucketCount_step [OF le] by (simp add: upt_conv_Cons map_Suc_upt del: upt_Suc)
  have a1: "\<And>i. int (Suc i) * stepDays g = stepDays g + int i * stepDays g"
    by (simp add: algebra_simps)
  have a2: "\<And>i. current + (stepDays g + int i * stepDays g) * msPerDay =
      ?next + int i * stepDays g * msPerDay"
    by (simp add: algebra_simps)
  show ?case
    unfolding unf IH cnt
    by (simp add: o_def set_eq a1 a2 keyOf_step [OF f] add.assoc del: of_nat_Suc)
qed

lemma map_set_present_snd:
  "map_of m k = Some b \<Longrightarrow> f b' = f b \<Longrightarrow>
   map (\<lambda>p. f (snd p)) (map_set k b' m) = map (\<lambda>p. f (snd p)) m"
  by (induction m) (auto split: if_splits)

lemma aggregate_date:
  "aggregate z g m c = Inr m' \<Longrightarrow> map (\<lambda>p. date (snd p)) m' = map (\<lambda>p. date (snd p)) m"
  by (auto simp: aggregate_def map_set_present_snd split: jsdate.splits option.splits sum.splits)

lemma aggregate_granularity:
  "aggregate z g m c = Inr m' \<Longrightarrow>
   map (\<lambda>p. granularity (snd p)) m' = map (\<lambda>p. granularity (snd p)) m"
  by (auto simp: aggregate_def map_set_present_snd split: jsdate.splits option.splits sum.splits)

lemma aggregateAll_date:
  "aggregateAll z g m cs = Inr m' \<Longrightarrow> map (\<lambda>p. date (snd p)) m' = map (\<lambda>p. date (snd p)) m"
  by (induction cs arbitrary: m) (auto simp: aggregate_date split: sum.splits)

lemma aggregateAll_granularity:
  "aggregateAll z g m cs = Inr m' \<Longrightarrow>
   map (\<lambda>p. granularity (snd p)) m' = map (\<lambda>p. granularity (snd p)) m"
  by (induction cs arbitrary: m) (auto simp: aggregate_granularity split: sum.splits)

lemma sorted_steps:
  "0 \<le> k \<Longrightarrow> sorted (map (\<lambda>i. (t::int) + int i * k * msPerDay) [0..<n])"
  by (auto simp: sorted_iff_nth_mono msPerDay_def mult_right_mono)

lemma localMidnight_bounds:
  "fixedOffset z \<Longrightarrow>
   t - msPerDay < localMidnight z (localDay z t) \<and> localMidnight z (localDay z t) \<le> t"
proof -
  assume f: "fixedOffset z"
  define l where "l = t + stdOffset z"
  have "l div msPerDay * msPerDay = l - l mod msPerDay"
    by (simp add: minus_mod_eq_div_mult [symmetric])
  moreover have "0 \<le> l mod msPerDay" "l mod msPerDay < msPerDay"
    using msPerDay_pos by simp_all
  ultimately show ?thesis
    by (simp add: localMidnight_def fixed_localDay [OF f] l_def)
qed

lemma fixed_localDay_localMidnight: "fixedOffset z \<Longrightarrow> localDay z (localMidnight z n) = n"
  using msPerDay_pos by (simp add: fixed_localDay localMidnight_def)

lemma localMidnight_add: "localMidnight z n + k * msPerDay = localMidnight z (n + k)"
  by (simp add: localMidnight_def algebra_simps)

lemma fixed_localDay_mono: "fixedOffset z \<Longrightarrow> a \<le> b \<Longrightarrow> localDay z a \<le> localDay z b"
  using msPerDay_pos by (simp add: fixed_localDay zdiv_mono1)

lemma span_div: "((a * msPerDay + (msPerDay - 1)) div msPerDay) = a"
proof -
  have "(a * msPerDay + (msPerDay - 1)) div msPerDay = a + (msPerDay - 1) div msPerDay"
    using msPerDay_pos by simp
  also have "(msPerDay - 1) div msPerDay = 0" by (simp add: msPerDay_def)
  finally show ?thesis by simp
qed

lemma end_minus_start:
  "localMidnight z d + (msPerDay - 1) - localMidnight z n = (d - n) * msPerDay + (msPerDay - 1)"
  by (simp add: localMidnight_def algebra_simps)

lemma bucketCount_Day:
  assumes "n \<le> d"
  shows "bucketCount Day (localMidnight z n) (localMidnight z d + (msPerDay - 1)) = nat (d - n) + 1"
proof -
  have le: "localMidnight z n \<le> localMidnight z d + (msPerDay - 1)"
  proof -
    have "0 \<le> (d - n) * msPerDay" using assms msPerDay_pos by simp
    moreover have "0 \<le> msPerDay - 1" by (simp add: msPerDay_def)
    ultimately show ?thesis using end_minus_start [of z d n] by linarith
  qed
  show ?thesis using le
    by (simp add: bucketCount_def stepDays_def end_minus_start span_div)
qed

lemma bucketCount_Week:
  assumes "n \<le> d"
  shows "bucketCount Week (localMidnight z n) (localMidnight z d + (msPerDay - 1)) =
           nat ((d - n) div 7) + 1"
proof -
  have le: "localMidnight z n \<le> localMidnight z d + (msPerDay - 1)"
  proof -
    have "0 \<le> (d - n) * msPerDay" using assms msPerDay_pos by simp
    moreover have "0 \<le> msPerDay - 1" by (simp add: msPerDay_def)
    ultimately show ?thesis using end_minus_start [of z d n] by linarith
  qed
  have "((d - n) * msPerDay + (msPerDay - 1)) div (7 * msPerDay)
        = (((d - n) * msPerDay + (msPerDay - 1)) div msPerDay) div 7"
    using zdiv_zmult2_eq [of 7 "(d - n) * msPerDay + (msPerDay - 1)" msPerDay]
    by (simp add: mult.commute)
  then have "((d - n) * msPerDay + (msPerDay - 1)) div (7 * msPerDay) = (d - n) div 7"
    by (simp only: span_div)
  then show ?thesis using le
    by (simp add: bucketCount_def stepDays_def end_minus_start)
qed

lemma daysDiff_gt: "(daysDiff mn mx > 60) = (60 * msPerDay < mx - mn)"
proof -
  define x where "x = - (mx - mn)"
  define q where "q = x div 86400000"
  define r where "r = x mod 86400000"
  have e: "x = q * 86400000 + r" by (simp add: q_def r_def)
  have r0: "0 \<le> r" and r1: "r < 86400000" by (simp_all add: r_def)
  have "(60 < - q) = (5184000000 < - x)" using e r0 r1 by linarith
  then show ?thesis
    by (simp add: daysDiff_def msPerDay_def q_def x_def)
qed

text \<open>
  In a time zone whose offset never changes, and with all dates well inside the range of
  \<open>Date\<close>, \<open>createBuckets\<close> makes one bucket for every unit from the first to the
  last, dated at the local midnight that starts it.
\<close>

lemma createBuckets_fixed:
  assumes f: "fixedOffset z"
    and mn: "- maxTime + 14 * msPerDay \<le> minDate"
    and mx: "maxDate \<le> maxTime - 14 * msPerDay"
    and le: "minDate \<le> maxDate"
    and cs: "list_all (\<lambda>d. - maxTime + 14 * msPerDay \<le> d \<and> d \<le> maxTime - 14 * msPerDay)
               (validDates convs)"
  shows "\<exists>bs. createBuckets z minDate maxDate g convs = Inr bs
     \<and> map date bs =
         map (\<lambda>i. localMidnight z
                     ((if g = Week then weekStartDay z minDate else localDay z minDate)
                      + int i * stepDays g))
           [0..<nat ((localDay z maxDate
                      - (if g = Week then weekStartDay z minDate else localDay z minDate))
                     div stepDays g) + 1]
     \<and> (\<forall>b \<in> set bs. granularity b = g)"
proof -
  define n where "n = (if g = Week then weekStartDay z minDate else localDay z minDate)"
  define s0 where "s0 = localMidnight z (localDay z minDate)"
  define e where "e = localMidnight z (localDay z maxDate) + (msPerDay - 1)"
  have b0: "minDate - msPerDay < s0 \<and> s0 \<le> minDate"
    unfolding s0_def by (rule localMidnight_bounds [OF f])
  have be: "maxDate - msPerDay < localMidnight z (localDay z maxDate)
      \<and> localMidnight z (localDay z maxDate) \<le> maxDate"
    by (rule localMidnight_bounds [OF f])
  have st0: "startOfDay z minDate = Date s0"
    using b0 mn mx le by (simp add: fixed_startOfDay [OF f] s0_def timeClip_def msPerDay_def)
  have gd: "getDay z s0 = getDay z minDate"
    by (simp add: getDay_def s0_def fixed_localDay_localMidnight [OF f])
  have r: "0 \<le> getDay z minDate \<and> getDay z minDate \<le> 6"
    using getDay_range [of z minDate] by simp
  then have r': "0 \<le> getDay z minDate * msPerDay \<and> getDay z minDate * msPerDay \<le> 6 * msPerDay"
    by (simp add: msPerDay_def)
  have wk: "s0 + (- getDay z minDate) * msPerDay = localMidnight z (weekStartDay z minDate)"
    unfolding s0_def localMidnight_add by (simp add: weekStartDay_def)
  have wkb: "- maxTime + 7 * msPerDay \<le> localMidnight z (weekStartDay z minDate)
      \<and> localMidnight z (weekStartDay z minDate) \<le> s0"
    using wk r' b0 mn by (simp add: msPerDay_def)
  have st: "(if g = Week
                   then (case startOfDay z minDate of InvalidDate \<Rightarrow> InvalidDate
                         | Date s \<Rightarrow> addDays z s (- getDay z s))
                   else startOfDay z minDate) = Date (localMidnight z n)"
  proof (cases "g = Week")
    case True
    have "addDays z s0 (- getDay z s0) = Date (localMidnight z (weekStartDay z minDate))"
      unfolding fixed_addDays [OF f] gd wk
      using wkb b0 mx le by (simp add: timeClip_def msPerDay_def)
    then show ?thesis using True by (simp add: st0 n_def)
  next
    case False
    then show ?thesis by (simp add: st0 n_def s0_def)
  qed
  have en: "endOfDay z maxDate = Date e"
    using be mn mx le by (simp add: fixed_endOfDay [OF f] e_def timeClip_def msPerDay_def)
  have nle: "n \<le> localDay z maxDate"
    using fixed_localDay_mono [OF f le] r by (simp add: n_def weekStartDay_def)
  have lo: "- maxTime + 6 * msPerDay \<le> localMidnight z n"
    using wkb b0 mn by (simp add: n_def s0_def msPerDay_def)
  have hi: "e \<le> maxTime - 7 * msPerDay"
    using be mx by (simp add: e_def msPerDay_def)
  let ?cnt = "bucketCount g (localMidnight z n) e"
  let ?m1 = "map (\<lambda>i. (keyOf z g (localMidnight z n) + int i * stepDays g,
                   \<lparr>date = localMidnight z n + int i * stepDays g * msPerDay,
                    key = keyOf z g (localMidnight z n) + int i * stepDays g,
                    conversations = 0, messages = 0, granularity = g\<rparr>)) [0..<?cnt]"
  have eb: "emptyBuckets z g (Date (localMidnight z n)) (Date e) [] = Inr ?m1"
    using emptyBuckets_eq [OF f lo hi, of "[]" g] by simp
  have "list_all (\<lambda>d. - maxTime + 6 * msPerDay + msPerHour \<le> d \<and> d \<le> maxTime - msPerHour)
      (validDates convs)"
    using cs by (auto simp: list_all_iff msPerDay_def msPerHour_def)
  from aggregateAll_returns [OF this, of z g ?m1]
  obtain m2 where m2: "aggregateAll z g ?m1 convs = Inr m2" by blast
  have d2: "map (\<lambda>p. date (snd p)) m2 =
      map (\<lambda>i. localMidnight z n + int i * stepDays g * msPerDay) [0..<?cnt]"
    using aggregateAll_date [OF m2] by (simp add: o_def)
  have g2: "map (\<lambda>p. granularity (snd p)) m2 = replicate ?cnt g"
    using aggregateAll_granularity [OF m2] by (simp add: o_def map_replicate_const)
  have "sorted (map date (map snd m2))"
    using sorted_steps [of "stepDays g" "localMidnight z n" ?cnt] d2
    by (simp add: o_def stepDays_def)
  then have srt: "sort_key date (map snd m2) = map snd m2"
    by (rule sort_key_id_if_sorted)
  have cb: "createBuckets z minDate maxDate g convs = Inr (map snd m2)"
    by (simp add: createBuckets_def Let_def st en eb m2 srt)
  have cnt: "?cnt = nat ((localDay z maxDate - n) div stepDays g) + 1"
    using bucketCount_Day [OF nle, of z] bucketCount_Week [OF nle, of z]
    by (cases g) (simp_all add: e_def stepDays_def)
  have dates: "map date (map snd m2) =
      map (\<lambda>i. localMidnight z (n + int i * stepDays g)) [0..<?cnt]"
    using d2 by (simp add: o_def localMidnight_add)
  have gran: "\<forall>b \<in> set (map snd m2). granularity b = g"
  proof
    fix b assume "b \<in> set (map snd m2)"
    then have "granularity b \<in> set (map (\<lambda>p. granularity (snd p)) m2)" by auto
    then show "granularity b = g" unfolding g2 by simp
  qed
  show ?thesis
    unfolding cb n_def [symmetric] using dates gran cnt by simp
qed

lemma fold_min_Min: "fold min ds (d::int) = Min (set (d # ds))"
  by (simp only: Min.set_eq_fold)

lemma fold_max_Max: "fold max ds (d::int) = Max (set (d # ds))"
  by (simp only: Max.set_eq_fold)

text \<open>
  So in a time zone whose offset never changes, and with all dates well inside the range
  of \<open>Date\<close>, \<open>processData\<close> gives daily buckets for a span of at most 60 days and
  weekly buckets for a longer one, one for every local day, or every week starting on a
  Sunday, from that of the earliest date to that of the latest.
\<close>

lemma processData_fixedOffset:
  assumes f: "fixedOffset z" and ne: "validDates convs \<noteq> []" and ins: "datesInside convs"
  shows "\<exists>bs. processData z convs = Inr bs
     \<and> (Max (set (validDates convs)) - Min (set (validDates convs)) \<le> 60 * msPerDay \<longrightarrow>
          map date bs =
            map (\<lambda>i. localMidnight z (localDay z (Min (set (validDates convs))) + int i))
              [0..<nat (localDay z (Max (set (validDates convs)))
                        - localDay z (Min (set (validDates convs)))) + 1]
          \<and> (\<forall>b \<in> set bs. granularity b = Day))
     \<and> (60 * msPerDay < Max (set (validDates convs)) - Min (set (validDates convs)) \<longrightarrow>
          map date bs =
            map (\<lambda>i. localMidnight z (weekStartDay z (Min (set (validDates convs))) + 7 * int i))
              [0..<nat ((localDay z (Max (set (validDates convs)))
                         - weekStartDay z (Min (set (validDates convs)))) div 7) + 1]
          \<and> (\<forall>b \<in> set bs. granularity b = Week))"
proof -
  obtain d ds where v: "validDates convs = d # ds" using ne by (cases "validDates convs") auto
  define mn where "mn = Min (set (validDates convs))"
  define mx where "mx = Max (set (validDates convs))"
  define g where "g = (if 60 * msPerDay < mx - mn then Week else Day)"
  have a: "list_all (\<lambda>d. - maxTime + 14 * msPerDay \<le> d \<and> d \<le> maxTime - 14 * msPerDay)
               (validDates convs)"
    using ins by (simp add: datesInside_def)
  have "mn \<in> set (validDates convs)" "mx \<in> set (validDates convs)"
    using ne unfolding mn_def mx_def by (simp_all add: Min_in Max_in del: set_simps)
  then have lo: "- maxTime + 14 * msPerDay \<le> mn" and hi: "mx \<le> maxTime - 14 * msPerDay"
    using a by (auto simp: list_all_iff)
  have le: "mn \<le> mx" using ne unfolding mn_def mx_def by (simp add: Min_le_iff)
  have pd: "processData z convs = createBuckets z mn mx g convs"
    unfolding mn_def mx_def g_def
    by (simp add: processData_def v Let_def daysDiff_gt fold_min_Min fold_max_Max del: set_simps)
  from createBuckets_fixed [OF f lo hi le a, of g]
  obtain bs where bs: "createBuckets z mn mx g convs = Inr bs"
    and dt: "map date bs =
         map (\<lambda>i. localMidnight z
                     ((if g = Week then weekStartDay z mn else localDay z mn)
                      + int i * stepDays g))
           [0..<nat ((localDay z mx - (if g = Week then weekStartDay z mn else localDay z mn))
                     div stepDays g) + 1]"
    and gr: "\<forall>b \<in> set bs. granularity b = g"
    by blast
  have day: "mx - mn \<le> 60 * msPerDay \<Longrightarrow>
      map date bs = map (\<lambda>i. localMidnight z (localDay z mn + int i))
              [0..<nat (localDay z mx - localDay z mn) + 1]
      \<and> (\<forall>b \<in> set bs. granularity b = Day)"
    using dt gr by (simp add: g_def stepDays_def)
  have week: "60 * msPerDay < mx - mn \<Longrightarrow>
      map date bs = map (\<lambda>i. localMidnight z (weekStartDay z mn + 7 * int i))
              [0..<nat ((localDay z mx - weekStartDay z mn) div 7) + 1]
      \<and> (\<forall>b \<in> set bs. granularity b = Week)"
    using dt gr by (simp add: g_def stepDays_def mult.commute)
  show ?thesis
    unfolding mn_def [symmetric] mx_def [symmetric] pd bs using day week by blast
qed

section \<open>Facts about filtering\<close>

lemma filterCard_cards:
  "fp_cards (filterCard m acc c) =
     fp_cards acc @ [c\<lparr>card_display := (if m then [] else ''none'')\<rparr>]"
  by (simp add: filterCard_def)

lemma foldl_filterCard_cards:
  "fp_cards (foldl (\<lambda>acc c. filterCard (m c) acc c) acc cs) =
     fp_cards acc @ map (\<lambda>c. c\<lparr>card_display := (if m c then [] else ''none'')\<rparr>) cs"
  by (induction cs arbitrary: acc) (simp_all add: filterCard_cards)

lemma applyFilter_cards:
  "cards (applyFilter m ex) =
     map (\<lambda>c. c\<lparr>card_display := (if m c then [] else ''none'')\<rparr>) (cards ex)"
  by (simp add: applyFilter_def Let_def foldl_filterCard_cards)

lemma applyFilter_visible:
  "i < length (cards ex) \<Longrightarrow> visible (cards (applyFilter m ex) ! i) = m (cards ex ! i)"
  by (simp add: applyFilter_cards visible_def)

lemma includesStr_iff: "includesStr s t = (\<exists>p q. s = p @ t @ q)"
proof (induction s)
  case Nil
  then show ?case by simp
next
  case (Cons c s)
  show ?case
  proof
    assume "includesStr (c # s) t"
    then consider "prefix t (c # s)" | "includesStr s t" by auto
    then show "\<exists>p q. c # s = p @ t @ q"
    proof cases
      case 1
      then obtain q where "c # s = t @ q" by (auto simp: prefix_def)
      then have "c # s = [] @ t @ q" by simp
      then show ?thesis by blast
    next
      case 2
      then obtain p q where "s = p @ t @ q" using Cons.IH by blast
      then have "c # s = (c # p) @ t @ q" by simp
      then show ?thesis by blast
    qed
  next
    assume "\<exists>p q. c # s = p @ t @ q"
    then obtain p q where e: "c # s = p @ t @ q" by blast
    show "includesStr (c # s) t"
    proof (cases p)
      case Nil
      then have "prefix t (c # s)" using e by (simp add: prefix_def)
      then show ?thesis by simp
    next
      case (Cons a p')
      then have "s = p' @ t @ q" using e by simp
      then have "includesStr s t" using Cons.IH by blast
      then show ?thesis by simp
    qed
  qed
qed

lemma matchesSearch_spec:
  assumes "searchTerm ex = toLowerCase ex term"
  shows "matchesSearch ex c = spec_searchMatch (toLowerCase ex) term c"
proof (cases "searchTerm ex = []")
  case True
  then have "\<And>s. toLowerCase ex s = toLowerCase ex s @ toLowerCase ex term @ []"
    using assms by simp
  then have "\<And>s. spec_ciSubstring (toLowerCase ex) term s"
    unfolding spec_ciSubstring_def by (intro exI)
  then show ?thesis using True
    by (simp add: matchesSearch_def spec_searchMatch_def)
next
  case False
  then show ?thesis
    by (simp add: matchesSearch_def spec_searchMatch_def spec_ciSubstring_def assms
          includesStr_iff)
qed

lemma matchesFolder_spec: "matchesFolder ex c = spec_folderMatch (currentFolder ex) c"
  by (simp add: matchesFolder_def spec_folderMatch_def)


lemma matchesWarmup_spec: "matchesWarmup ex c = spec_warmupMatch (ignoreWarmup ex) c"
  by (auto simp: matchesWarmup_def spec_warmupMatch_def)

lemma matchesDateRange_invalid: "data_date c = InvalidDate \<Longrightarrow> matchesDateRange ex c"
  by (simp add: matchesDateRange_def)


text \<open>
  \<open>handleSearch\<close> leaves the lower-cased value of the search box as the search term,
  and the empty string on a page without a search box.
\<close>

lemma applyFilter_searchTerm: "searchTerm (applyFilter m ex) = searchTerm ex"
  by (simp add: applyFilter_def Let_def)

lemma handleSearch_searchTerm:
  "searchInput ex = Some v \<Longrightarrow> searchTerm (handleSearch ex) = toLowerCase ex v"
  "searchInput ex = Some v \<Longrightarrow> searchTerm (handleSearch_detail ex) = toLowerCase ex v"
  "searchInput ex = None \<Longrightarrow> searchTerm (handleSearch ex) = []"
  "searchInput ex = None \<Longrightarrow> searchTerm (handleSearch_detail ex) = []"
  by (simp_all add: handleSearch_def handleSearch_detail_def filterChats_def
        filterChats_detail_def applyFilter_searchTerm searchValue_def)

text \<open>The filter leaves \<open>toLowerCase\<close> as it is.\<close>

lemma applyFilter_toLowerCase: "toLowerCase (applyFilter m ex) = toLowerCase ex"
  by (simp add: applyFilter_def Let_def)


text \<open>
  For a lower-casing that works code unit by code unit, the match is the one that looks
  for a contiguous part of \<open>s\<close> equal to \<open>t\<close> up to case. \<open>toLowerCase\<close> itself is not
  of that kind.
\<close>

lemma ciSubstring_unitwise:
  "spec_ciSubstring (map f) t s = (\<exists>pre mid post. s = pre @ mid @ post \<and> map f mid = map f t)"
proof
  assume "spec_ciSubstring (map f) t s"
  then obtain p q where "map f s = p @ (map f t @ q)"
    by (auto simp: spec_ciSubstring_def)
  then have "\<exists>us vs. s = us @ vs \<and> p = map f us \<and> map f t @ q = map f vs"
    by (simp add: map_eq_append_conv)
  then obtain pre rest where s: "s = pre @ rest" and r: "map f t @ q = map f rest"
    by blast
  from r have "\<exists>us vs. rest = us @ vs \<and> map f t = map f us \<and> q = map f vs"
    by (simp add: append_eq_map_conv)
  then obtain mid post where m: "rest = mid @ post" and l: "map f t = map f mid"
    by blast
  have "s = pre @ mid @ post \<and> map f mid = map f t"
    using s m l by simp
  then show "\<exists>pre mid post. s = pre @ mid @ post \<and> map f mid = map f t" by blast
next
  assume "\<exists>pre mid post. s = pre @ mid @ post \<and> map f mid = map f t"
  then obtain pre mid post where "s = pre @ mid @ post" and "map f mid = map f t" by blast
  then have "map f s = map f pre @ map f t @ map f post" by simp
  then show "spec_ciSubstring (map f) t s"
    unfolding spec_ciSubstring_def by blast
qed


section \<open>Facts about the selection\<close>

lemma findIndex_ge: "- 1 \<le> findIndex P xs"
  by (induction xs) (auto simp: Let_def)

lemma findIndex_none: "(findIndex P xs = - 1) = (\<forall>x \<in> set xs. \<not> P x)"
proof (induction xs)
  case Nil
  then show ?case by simp
next
  case (Cons x xs)
  have "findIndex P xs + 1 \<noteq> - 1" using findIndex_ge [of P xs] by linarith
  then show ?case using Cons by (auto simp: Let_def)
qed

lemma findIndex_found:
  "findIndex P xs \<noteq> - 1 \<Longrightarrow>
   0 \<le> findIndex P xs \<and> nat (findIndex P xs) < length xs \<and> P (xs ! nat (findIndex P xs))
   \<and> (\<forall>k < nat (findIndex P xs). \<not> P (xs ! k))"
proof (induction xs)
  case Nil
  then show ?case by simp
next
  case (Cons x xs)
  show ?case
  proof (cases "P x")
    case True
    then show ?thesis by simp
  next
    case False
    then have ne: "findIndex P xs \<noteq> - 1" using Cons.prems by (auto simp: Let_def)
    then have e: "findIndex P (x # xs) = findIndex P xs + 1" using False by (simp add: Let_def)
    from Cons.IH [OF ne] have ih: "0 \<le> findIndex P xs" "nat (findIndex P xs) < length xs"
      "P (xs ! nat (findIndex P xs))" "\<forall>k < nat (findIndex P xs). \<not> P (xs ! k)" by auto
    have n: "nat (findIndex P xs + 1) = Suc (nat (findIndex P xs))" using ih(1) by simp
    have "\<forall>k < Suc (nat (findIndex P xs)). \<not> P ((x # xs) ! k)"
    proof (intro allI impI)
      fix k assume "k < Suc (nat (findIndex P xs))"
      then show "\<not> P ((x # xs) ! k)" using False ih(4) by (cases k) auto
    qed
    then show ?thesis unfolding e n using ih by simp
  qed
qed

lemma findIndex_mono:
  assumes "\<And>x. Q x \<Longrightarrow> P x" and "findIndex Q xs \<noteq> - 1"
  shows "findIndex P xs \<noteq> - 1 \<and> findIndex P xs \<le> findIndex Q xs"
proof -
  from findIndex_found [OF assms(2)] have q: "0 \<le> findIndex Q xs"
    "nat (findIndex Q xs) < length xs" "Q (xs ! nat (findIndex Q xs))" by auto
  then have p: "P (xs ! nat (findIndex Q xs))" using assms(1) by blast
  then have ne: "findIndex P xs \<noteq> - 1" using q(2) by (auto simp: findIndex_none)
  from findIndex_found [OF ne] have f: "0 \<le> findIndex P xs"
    "\<forall>k < nat (findIndex P xs). \<not> P (xs ! k)" by auto
  have "\<not> nat (findIndex Q xs) < nat (findIndex P xs)" using f(2) p by blast
  then have "findIndex P xs \<le> findIndex Q xs" using f(1) q(1) by linarith
  with ne show ?thesis by simp
qed

text \<open>What \<open>render\<close> and \<open>updateRangeDisplay\<close> leave alone.\<close>

lemma updateSelectionOverlay_frame:
  "buckets (updateSelectionOverlay st) = buckets st"
  "selectionStart (updateSelectionOverlay st) = selectionStart st"
  "selectionEnd (updateSelectionOverlay st) = selectionEnd st"
  "isDragging (updateSelectionOverlay st) = isDragging st"
  "onRangeChangeCallback (updateSelectionOverlay st) = onRangeChangeCallback st"
  "timeZone (updateSelectionOverlay st) = timeZone st"
  "histogramBars (updateSelectionOverlay st) = histogramBars st"
  "rangeDisplay (updateSelectionOverlay st) = rangeDisplay st"
  "clearRangeBtn (updateSelectionOverlay st) = clearRangeBtn st"
  by (simp_all add: updateSelectionOverlay_def split: option.splits)

lemma render_frame:
  "buckets (render st) = buckets st"
  "selectionStart (render st) = selectionStart st"
  "selectionEnd (render st) = selectionEnd st"
  "isDragging (render st) = isDragging st"
  "onRangeChangeCallback (render st) = onRangeChangeCallback st"
  "timeZone (render st) = timeZone st"
  "rangeDisplay (render st) = rangeDisplay st"
  "clearRangeBtn (render st) = clearRangeBtn st"
  by (simp_all add: render_def updateSelectionOverlay_frame split: option.splits)

lemma updateRangeDisplay_frame:
  "buckets (updateRangeDisplay st) = buckets st"
  "selectionStart (updateRangeDisplay st) = selectionStart st"
  "selectionEnd (updateRangeDisplay st) = selectionEnd st"
  "isDragging (updateRangeDisplay st) = isDragging st"
  "onRangeChangeCallback (updateRangeDisplay st) = onRangeChangeCallback st"
  "timeZone (updateRangeDisplay st) = timeZone st"
  "histogramBars (updateRangeDisplay st) = histogramBars st"
  "clearRangeBtn (updateRangeDisplay st) = clearRangeBtn st"
  by (simp_all add: updateRangeDisplay_def split: option.splits prod.splits)

lemma setSelection_indices:
  "selectionStart (fst (setSelection (Some d) e st)) =
     Some (if findIndex (atOrAfter d) (buckets st) = - 1 then 0
           else findIndex (atOrAfter d) (buckets st))"
  "selectionEnd (fst (setSelection (Some d) e st)) =
     Some (if findIndex (atOrAfter (case e of None \<Rightarrow> d | Some x \<Rightarrow> x)) (buckets st) = - 1
           then int (length (buckets st)) - 1
           else findIndex (atOrAfter (case e of None \<Rightarrow> d | Some x \<Rightarrow> x)) (buckets st))"
  "buckets (fst (setSelection (Some d) e st)) = buckets st"
  by (simp_all add: setSelection_def Let_def render_frame updateRangeDisplay_frame)

lemma atOrAfter_mono: "s \<le> t \<Longrightarrow> atOrAfter (Date t) b \<Longrightarrow> atOrAfter (Date s) b"
  by (simp add: atOrAfter_def)

lemma findIndex_invalid: "findIndex (atOrAfter InvalidDate) bs = - 1"
  by (simp add: findIndex_none atOrAfter_def)

lemma setSelection_ordered:
  assumes ord: "\<And>s t. startDate = Date s \<Longrightarrow> endDate = Some (Date t) \<Longrightarrow> s \<le> t"
    and i: "findIndex (atOrAfter startDate) bs \<noteq> - 1"
    and j: "findIndex (atOrAfter (case endDate of None \<Rightarrow> startDate | Some x \<Rightarrow> x)) bs \<noteq> - 1"
  shows "findIndex (atOrAfter startDate) bs
      \<le> findIndex (atOrAfter (case endDate of None \<Rightarrow> startDate | Some x \<Rightarrow> x)) bs"
proof (cases endDate)
  case None
  then show ?thesis by simp
next
  case (Some x)
  obtain s where s: "startDate = Date s"
    using i findIndex_invalid by (cases startDate) auto
  obtain t where t: "x = Date t"
    using j Some findIndex_invalid by (cases x) auto
  have "s \<le> t" using ord s t Some by simp
  then have "\<And>b. atOrAfter (Date t) b \<Longrightarrow> atOrAfter (Date s) b" by (rule atOrAfter_mono)
  then have "findIndex (atOrAfter (Date s)) bs \<le> findIndex (atOrAfter (Date t)) bs"
    using findIndex_mono [of "atOrAfter (Date t)" "atOrAfter (Date s)" bs] j Some t by simp
  then show ?thesis using Some s t by simp
qed

lemma setSelection_normal:
  assumes ne: "buckets st \<noteq> []"
    and ord: "\<And>s t. startDate = Date s \<Longrightarrow> endDate = Some (Date t) \<Longrightarrow> s \<le> t"
  shows "selectionNormal (fst (setSelection (Some startDate) endDate st))"
proof -
  define i where "i = findIndex (atOrAfter startDate) (buckets st)"
  define j where
    "j = findIndex (atOrAfter (case endDate of None \<Rightarrow> startDate | Some x \<Rightarrow> x)) (buckets st)"
  define n where "n = int (length (buckets st))"
  define r where "r = fst (setSelection (Some startDate) endDate st)"
  have npos: "0 < n" using ne by (simp add: n_def)
  have irange: "i = - 1 \<or> (0 \<le> i \<and> i < n)"
    using findIndex_found [of "atOrAfter startDate" "buckets st"] by (auto simp: i_def n_def)
  have jrange: "j = - 1 \<or> (0 \<le> j \<and> j < n)"
    using findIndex_found
      [of "atOrAfter (case endDate of None \<Rightarrow> startDate | Some x \<Rightarrow> x)" "buckets st"]
    by (auto simp: j_def n_def)
  have ij: "i \<noteq> - 1 \<Longrightarrow> j \<noteq> - 1 \<Longrightarrow> i \<le> j"
    unfolding i_def j_def using ord by (rule setSelection_ordered)
  have sel: "selectionStart r = Some (if i = - 1 then 0 else i)"
    "selectionEnd r = Some (if j = - 1 then n - 1 else j)"
    "int (length (buckets r)) = n"
    unfolding r_def i_def j_def n_def by (simp_all add: setSelection_indices)
  have "0 \<le> (if i = - 1 then 0 else i)
      \<and> (if i = - 1 then 0 else i) \<le> (if j = - 1 then n - 1 else j)
      \<and> (if j = - 1 then n - 1 else j) < n"
    using irange jrange ij npos by auto
  then show ?thesis
    unfolding r_def [symmetric] selectionNormal_def sel by simp
qed

lemma handleMouseUp_normal:
  assumes "isDragging st" and "selectionInBars st"
  shows "selectionNormal (fst (handleMouseUp st))"
  using assms
  by (auto simp: handleMouseUp_def Let_def selectionNormal_def selectionInBars_def inBars_def
        updateRangeDisplay_frame selMin_def selMax_def split: option.splits)


lemma handleMouseDown_dragging:
  "inBars st i \<Longrightarrow> dragging st (handleMouseDown (Some i) st)"
  by (simp add: dragging_def handleMouseDown_def render_frame selectionInBars_def inBars_def)

lemma handleMouseMove_dragging:
  "dragging st0 st \<Longrightarrow> (\<And>k. j = Some k \<Longrightarrow> inBars st0 k) \<Longrightarrow> dragging st0 (handleMouseMove j st)"
  by (cases j) (auto simp: dragging_def handleMouseMove_def render_frame selectionInBars_def inBars_def
        split: option.splits)

lemma moves_dragging:
  "dragging st0 st \<Longrightarrow> (\<And>k. Some k \<in> set moves \<Longrightarrow> inBars st0 k) \<Longrightarrow>
   dragging st0 (foldl (\<lambda>s j. handleMouseMove j s) st moves)"
proof (induction moves arbitrary: st)
  case Nil
  then show ?case by simp
next
  case (Cons j moves)
  have "dragging st0 (handleMouseMove j st)"
    using Cons.prems by (intro handleMouseMove_dragging) auto
  then show ?case using Cons.IH Cons.prems(2) by simp
qed

lemma handleMouseUp_selection:
  "dragging st0 st \<Longrightarrow> selectionStart (fst (handleMouseUp st)) \<noteq> None
     \<and> selectionEnd (fst (handleMouseUp st)) \<noteq> None
     \<and> buckets (fst (handleMouseUp st)) = buckets st0"
  by (auto simp: dragging_def handleMouseUp_def Let_def updateRangeDisplay_frame split: option.splits)

lemma drag_normal:
  assumes "inBars st i" and "\<And>k. Some k \<in> set moves \<Longrightarrow> inBars st k"
  shows "selectionNormal (fst (drag i moves st))
     \<and> selectionStart (fst (drag i moves st)) \<noteq> None
     \<and> selectionEnd (fst (drag i moves st)) \<noteq> None"
proof -
  let ?st = "foldl (\<lambda>s j. handleMouseMove j s) (handleMouseDown (Some i) st) moves"
  have d: "dragging st ?st"
    using assms by (intro moves_dragging handleMouseDown_dragging) auto
  then have "selectionNormal (fst (handleMouseUp ?st))"
    by (intro handleMouseUp_normal) (auto simp: dragging_def)
  then show ?thesis using handleMouseUp_selection [OF d] by (simp add: drag_def)
qed

lemma first_atOrAfter:
  assumes srt: "sorted (map date bs)" and ne: "findIndex (atOrAfter (Date t)) bs \<noteq> - 1"
  shows "isFirstAtOrAfter bs t (date (bs ! nat (findIndex (atOrAfter (Date t)) bs)))"
proof -
  let ?i = "nat (findIndex (atOrAfter (Date t)) bs)"
  from findIndex_found [OF ne] have f: "?i < length bs" "atOrAfter (Date t) (bs ! ?i)"
    "\<forall>k < ?i. \<not> atOrAfter (Date t) (bs ! k)" by auto
  have "\<forall>b \<in> set bs. t \<le> date b \<longrightarrow> date (bs ! ?i) \<le> date b"
  proof (intro ballI impI)
    fix b assume "b \<in> set bs" and tb: "t \<le> date b"
    then obtain k where k: "k < length bs" "b = bs ! k" by (auto simp: in_set_conv_nth)
    have "\<not> k < ?i" using f(3) k tb by (auto simp: atOrAfter_def)
    then have "?i \<le> k" by simp
    then have "map date bs ! ?i \<le> map date bs ! k"
      using srt k(1) by (simp add: sorted_iff_nth_mono)
    then show "date (bs ! ?i) \<le> date b" using k f(1) by simp
  qed
  then show ?thesis using f by (auto simp: isFirstAtOrAfter_def atOrAfter_def)
qed

lemma noneAtOrAfter_iff: "noneAtOrAfter bs t = (findIndex (atOrAfter (Date t)) bs = - 1)"
  by (auto simp: noneAtOrAfter_def findIndex_none atOrAfter_def not_le)

















text \<open>The buckets that \<open>init\<close> and \<open>filterByFolder\<close> leave are sorted by date.\<close>

lemma filterByFolder_sorted:
  "sorted (map date (buckets st)) \<Longrightarrow>
   sorted (map date (buckets (fst (fst (filterByFolder folder st)))))"
  by (auto simp: filterByFolder_def Let_def render_frame processData_sorted split: sum.splits)

lemma init_sorted:
  "sorted (map date (buckets st)) \<Longrightarrow> sorted (map date (buckets (fst (init st))))"
  by (auto simp: init_def Let_def render_frame processData_sorted
        split: option.splits sum.splits)




section \<open>Facts about the page\<close>





section \<open>Facts about the chat detail\<close>

lemma selectChat_begin_frame:
  "chatCache (selectChat_begin p c u ex) = chatCache ex"
  "requests (selectChat_begin p c u ex) = requests ex"
  "console (selectChat_begin p c u ex) = console ex"
  "detailLoading (selectChat_begin p c u ex) = map_option (\<lambda>_. ''flex'') (detailLoading ex)"
  "detailEmpty (selectChat_begin p c u ex) =
     map_option (\<lambda>p. p\<lparr>ph_display := ''none''\<rparr>) (detailEmpty ex)"
  "cacheKey (selectChat_begin p c u ex) = p @ ''/'' @ c"
  by (simp_all add: selectChat_begin_def Let_def cacheKey_def)

lemma renderChatDetail_frame:
  "chatCache (renderChatDetail d ex) = chatCache ex"
  "requests (renderChatDetail d ex) = requests ex"
  "console (renderChatDetail d ex) = console ex"
  by (simp_all add: renderChatDetail_def)

lemma loadFailed_frame:
  "chatCache (fst (loadFailed err ex)) = chatCache ex"
  "requests (fst (loadFailed err ex)) = requests ex"
  "console (fst (loadFailed err ex)) = console ex @ [err]"
  "detailLoading (fst (loadFailed err ex)) = map_option (\<lambda>_. ''none'') (detailLoading ex)"
  by (simp_all add: loadFailed_def Let_def split: option.splits)


text \<open>A call that runs to its end with nothing in between.\<close>

lemma selectChat_cached:
  "chatCache ex (p @ ''/'' @ c) = Some d \<Longrightarrow>
   selectChat p c u fetched parsed ex = (renderChatDetail d (selectChat_begin p c u ex), None)"
  by (simp add: selectChat_def selectChat_call_def Let_def selectChat_begin_frame)

lemma selectChat_fetched:
  "chatCache ex (p @ ''/'' @ c) = None \<Longrightarrow>
   chatCache (fst (selectChat p c u (Response True) (Parsed d) ex)) =
     (chatCache ex)(p @ ''/'' @ c \<mapsto> d)
   \<and> requests (fst (selectChat p c u (Response True) (Parsed d) ex)) =
       requests ex @ [''/api/chat/'' @ p @ ''/'' @ c]
   \<and> snd (selectChat p c u (Response True) (Parsed d) ex) = None"
  by (simp add: selectChat_def selectChat_call_def fetchSettled_def jsonSettled_def Let_def
        selectChat_begin_frame renderChatDetail_frame cacheKey_def selectChat_begin_def)

lemma selectChat_failed:
  "chatCache ex (p @ ''/'' @ c) = None \<Longrightarrow> caught fetched parsed = Some err \<Longrightarrow>
   selectChat p c u fetched parsed ex =
     loadFailed err
       ((selectChat_begin p c u ex)\<lparr>requests := requests ex @ [''/api/chat/'' @ p @ ''/'' @ c]\<rparr>)"
  by (cases fetched; cases parsed)
     (auto simp: selectChat_def selectChat_call_def fetchSettled_def jsonSettled_def Let_def
        selectChat_begin_frame caught_def split: if_splits prod.splits)

lemma selectChat_cache_unchanged:
  "caught fetched parsed = Some err \<Longrightarrow>
   chatCache (fst (selectChat p c u fetched parsed ex)) = chatCache ex"
proof (cases "chatCache ex (p @ ''/'' @ c)")
  case None
  assume "caught fetched parsed = Some err"
  then show ?thesis
    using None by (simp add: selectChat_failed loadFailed_frame selectChat_begin_frame)
next
  case (Some d)
  then show ?thesis
    by (simp add: selectChat_cached renderChatDetail_frame selectChat_begin_frame)
qed

lemma caught_None: "(caught fetched parsed = None) = (\<exists>d. fetched = Response True \<and> parsed = Parsed d)"
  by (cases fetched; cases parsed) (auto simp: caught_def)

lemma selectChat_cache_step:
  "chatCache (fst (selectChat p c u fetched parsed ex)) k = Some d \<Longrightarrow>
   chatCache ex k = Some d \<or> (k = p @ ''/'' @ c \<and> fetched = Response True \<and> parsed = Parsed d)"
proof (cases "chatCache ex (p @ ''/'' @ c)")
  case (Some d')
  assume "chatCache (fst (selectChat p c u fetched parsed ex)) k = Some d"
  then show ?thesis using Some
    by (simp add: selectChat_cached renderChatDetail_frame selectChat_begin_frame)
next
  case None
  assume a: "chatCache (fst (selectChat p c u fetched parsed ex)) k = Some d"
  show ?thesis
  proof (cases "caught fetched parsed")
    case None': None
    then obtain d' where "fetched = Response True" "parsed = Parsed d'"
      by (auto simp: caught_None)
    then show ?thesis using a selectChat_fetched [OF None, of u d'] by (auto split: if_splits)
  next
    case (Some err)
    then show ?thesis using a selectChat_cache_unchanged [of fetched parsed err p c u ex] by simp
  qed
qed

text \<open>
  When no two calls overlap, every object in the cache is the body of a successful fetch
  for its key.
\<close>

lemma selectChats_cache:
  "chatCache (selectChats calls ex) k = Some d \<Longrightarrow>
   chatCache ex k = Some d
   \<or> (\<exists>p c u. (p, c, u, Response True, Parsed d) \<in> set calls \<and> k = p @ ''/'' @ c)"
proof (induction calls arbitrary: ex)
  case Nil
  then show ?case by simp
next
  case (Cons call calls)
  obtain p c u f j where call: "call = (p, c, u, f, j)" by (cases call) auto
  from Cons.prems have "chatCache (selectChats calls (fst (selectChat p c u f j ex))) k = Some d"
    by (simp add: call)
  from Cons.IH [OF this] show ?case
    using selectChat_cache_step [of p c u f j ex k d] by (auto simp: call)
qed

text \<open>
  When the call runs to its end before the next begins, a second call for a chat
  fetched successfully makes no request and renders the cached object.
\<close>

lemma selectChat_twice:
  assumes "chatCache ex (p @ ''/'' @ c) = None"
  shows "selectChat p c u' fetched parsed (fst (selectChat p c u (Response True) (Parsed d) ex)) =
          (renderChatDetail d
             (selectChat_begin p c u' (fst (selectChat p c u (Response True) (Parsed d) ex))), None)
      \<and> requests (fst (selectChat p c u' fetched parsed
             (fst (selectChat p c u (Response True) (Parsed d) ex)))) =
          requests ex @ [''/api/chat/'' @ p @ ''/'' @ c]"
proof -
  let ?ex1 = "fst (selectChat p c u (Response True) (Parsed d) ex)"
  have c1: "chatCache ?ex1 (p @ ''/'' @ c) = Some d"
    using selectChat_fetched [OF assms, of u d] by simp
  have s: "selectChat p c u' fetched parsed ?ex1 =
      (renderChatDetail d (selectChat_begin p c u' ?ex1), None)"
    by (rule selectChat_cached [OF c1])
  show ?thesis
    using selectChat_fetched [OF assms, of u d] s
    by (simp add: renderChatDetail_frame selectChat_begin_frame)
qed


text \<open>
  When no two calls overlap, an object in the cache stays there, so a second call for a
  chat fetched successfully renders the cached object however many calls lie between.
\<close>

lemma selectChat_cache_keeps:
  "chatCache ex k = Some d \<Longrightarrow> chatCache (fst (selectChat p c u fetched parsed ex)) k = Some d"
proof (cases "chatCache ex (p @ ''/'' @ c)")
  case (Some d')
  assume "chatCache ex k = Some d"
  then show ?thesis using Some
    by (simp add: selectChat_cached renderChatDetail_frame selectChat_begin_frame)
next
  case None
  assume a: "chatCache ex k = Some d"
  then have k: "k \<noteq> p @ ''/'' @ c" using None by auto
  show ?thesis
  proof (cases "caught fetched parsed")
    case None': None
    then obtain d' where "fetched = Response True" "parsed = Parsed d'"
      by (auto simp: caught_None)
    then show ?thesis using a k selectChat_fetched [OF None, of u d'] by simp
  next
    case (Some err)
    then show ?thesis using a selectChat_cache_unchanged [of fetched parsed err p c u ex] by simp
  qed
qed

lemma selectChats_cache_keeps:
  "chatCache ex k = Some d \<Longrightarrow> chatCache (selectChats calls ex) k = Some d"
proof (induction calls arbitrary: ex)
  case Nil
  then show ?case by simp
next
  case (Cons call calls)
  obtain p c u f j where call: "call = (p, c, u, f, j)" by (cases call) auto
  show ?case
    using Cons.IH [OF selectChat_cache_keeps [OF Cons.prems, of p c u f j]] by (simp add: call)
qed

lemma selectChat_again:
  assumes "chatCache ex (p @ ''/'' @ c) = None"
  shows "selectChat p c u' fetched parsed
           (selectChats calls (fst (selectChat p c u (Response True) (Parsed d) ex))) =
          (renderChatDetail d
             (selectChat_begin p c u'
                (selectChats calls (fst (selectChat p c u (Response True) (Parsed d) ex)))), None)"
proof -
  let ?ex1 = "fst (selectChat p c u (Response True) (Parsed d) ex)"
  have "chatCache ?ex1 (p @ ''/'' @ c) = Some d"
    using selectChat_fetched [OF assms, of u d] by simp
  then have "chatCache (selectChats calls ?ex1) (p @ ''/'' @ c) = Some d"
    by (rule selectChats_cache_keeps)
  then show ?thesis by (rule selectChat_cached)
qed


section \<open>The claims\<close>



text \<open>
  C2. \<open>processData\<close> is to give daily buckets when the valid dates span at most 60
  days and weekly ones when they span more, one bucket for every day or week from the
  earliest date to the latest. \<open>createBuckets\<close> steps from one local midnight to the
  next and files each bucket under the UTC date of that midnight, so where the offset
  of the time zone changes two local days get the same key and the second bucket
  replaces the first. In Europe/London the conversations of \<open>springConvs\<close>, of
  2024-03-30 and 2024-04-02 (local days 19812 and 19815), get three daily buckets,
  starting on the local days 19812, 19814 and 19815: the bucket made for 2024-03-31,
  the day the clocks go forward, is replaced by that of 2024-04-01, which has the same
  key. In UTC the same conversations get the four buckets. And for a conversation dated
  at the latest time a \<open>Date\<close> can hold, the end of its day is an Invalid Date and no
  bucket is made at all.
\<close>

theorem processData_dst_failure:
  "localDay london 1711800000000 = 19812 \<and> localDay london 1712059200000 = 19815
   \<and> processData london springConvs =
       Inr [\<lparr>date = 1711756800000, key = 19812, conversations = 1, messages = 5,
               granularity = Day\<rparr>,
            \<lparr>date = 1711926000000, key = 19813, conversations = 0, messages = 0,
               granularity = Day\<rparr>,
            \<lparr>date = 1712012400000, key = 19814, conversations = 0, messages = 0,
               granularity = Day\<rparr>]
   \<and> map (localDay london) [1711756800000, 1711926000000, 1712012400000] =
       [19812, 19814, 19815]
   \<and> processData utc springConvs =
       Inr [\<lparr>date = 1711756800000, key = 19812, conversations = 1, messages = 5,
               granularity = Day\<rparr>,
            \<lparr>date = 1711843200000, key = 19813, conversations = 0, messages = 0,
               granularity = Day\<rparr>,
            \<lparr>date = 1711929600000, key = 19814, conversations = 0, messages = 0,
               granularity = Day\<rparr>,
            \<lparr>date = 1712016000000, key = 19815, conversations = 1, messages = 2,
               granularity = Day\<rparr>]
   \<and> endOfDay utc 8640000000000000 = InvalidDate
   \<and> processData utc latestConv = Inr []"
  by code_simp

text \<open>
  C3, as amended. For a chat card whose date attribute is unparseable, \<open>filterChats\<close>
  applies no date-range test: whether or not a date range is active, and whatever its
  bounds, the card is visible if and only if it passes the folder and the search
  predicates (and the warmup exclusion in the variant with a detail panel).
\<close>

theorem filterChats_unparseable_date:
  "searchTerm ex = toLowerCase ex term \<Longrightarrow> i < length (cards ex) \<Longrightarrow>
   data_date (cards ex ! i) = InvalidDate \<Longrightarrow>
   (visible (cards (filterChats ex) ! i) \<longleftrightarrow>
        spec_folderMatch (currentFolder ex) (cards ex ! i)
        \<and> spec_searchMatch (toLowerCase ex) term (cards ex ! i))
   \<and> (visible (cards (filterChats_detail ex) ! i) \<longleftrightarrow>
        spec_folderMatch (currentFolder ex) (cards ex ! i)
        \<and> spec_searchMatch (toLowerCase ex) term (cards ex ! i)
        \<and> spec_warmupMatch (ignoreWarmup ex) (cards ex ! i))"
proof -
  assume t: "searchTerm ex = toLowerCase ex term" and i: "i < length (cards ex)"
    and d: "data_date (cards ex ! i) = InvalidDate"
  have vis: "visible (cards (filterChats ex) ! i) =
      (matchesFolder ex (cards ex ! i) \<and> matchesSearch ex (cards ex ! i)
       \<and> matchesDateRange ex (cards ex ! i))"
    unfolding filterChats_def by (rule applyFilter_visible [OF i])
  have vis_detail: "visible (cards (filterChats_detail ex) ! i) =
      (matchesFolder ex (cards ex ! i) \<and> matchesSearch ex (cards ex ! i)
       \<and> matchesDateRange ex (cards ex ! i) \<and> matchesWarmup ex (cards ex ! i))"
    unfolding filterChats_detail_def by (rule applyFilter_visible [OF i])
  show ?thesis
    unfolding vis vis_detail
    by (simp add: matchesFolder_spec matchesSearch_spec [OF t] matchesDateRange_invalid [OF d]
          matchesWarmup_spec)
qed

text \<open>The theorem at the second card of \<open>explorerRange\<close>.\<close>

theorem filterChats_unparseable_date_witness:
  "searchTerm explorerRange = toLowerCase explorerRange (str ''PARSER'')
   \<and> 1 < length (cards explorerRange)
   \<and> data_date (cards explorerRange ! 1) = InvalidDate
   \<and> visible (cards (filterChats explorerRange) ! 1)
   \<and> spec_folderMatch (currentFolder explorerRange) (cards explorerRange ! 1)
   \<and> spec_searchMatch (toLowerCase explorerRange) (str ''PARSER'') (cards explorerRange ! 1)"
proof -
  have h1: "searchTerm explorerRange = toLowerCase explorerRange (str ''PARSER'')" by code_simp
  have h2: "1 < length (cards explorerRange)" by code_simp
  have h3: "data_date (cards explorerRange ! 1) = InvalidDate" by code_simp
  have v: "visible (cards (filterChats explorerRange) ! 1)" by code_simp
  show ?thesis using filterChats_unparseable_date [OF h1 h2 h3] v h1 h2 h3 by blast
qed

text \<open>
  C3 as stated fails: with a date range active, the card of \<open>explorerRange\<close> whose
  date is unparseable stays visible.
\<close>

theorem filterChats_unparseable_date_counterexample:
  "data_date (cards explorerRange ! 1) = InvalidDate
   \<and> dateRangeStart explorerRange = Some (Date 1704067200000)
   \<and> dateRangeEnd explorerRange = Some (Date 1704153599999)
   \<and> visible (cards (filterChats explorerRange) ! 1)
   \<and> visible (cards (filterChats_detail explorerRange) ! 1)"
  by code_simp

text \<open>
  C4, as amended. For every non-empty bucket list sorted by date (as \<open>processData\<close>
  leaves it) and every \<open>startDate <= endDate\<close>, \<open>setSelection(startDate, endDate)\<close>
  followed by \<open>getSelection()\<close> returns the start dates \<open>d1 <= d2\<close> of two buckets:
  \<open>d1\<close> is the start of the earliest bucket starting at or after \<open>startDate\<close>, or of
  the first bucket when none does; \<open>d2\<close> is the start of the earliest bucket starting at
  or after \<open>endDate\<close>, or of the last bucket when none does. So \<open>d1 >= startDate\<close> and
  \<open>d2 >= endDate\<close> unless clamped, and \<open>d1 = startDate\<close> when \<open>startDate\<close> is itself the
  start of a bucket.
\<close>

theorem setSelection_getSelection:
  "buckets st \<noteq> [] \<Longrightarrow> sorted (map date (buckets st)) \<Longrightarrow> s \<le> e \<Longrightarrow>
   \<exists>d1 d2.
     getSelection (fst (setSelection (Some (Date s)) (Some (Date e)) st)) = Some (Some d1, Some d2)
     \<and> d1 \<le> d2
     \<and> (if noneAtOrAfter (buckets st) s then d1 = date (hd (buckets st))
         else isFirstAtOrAfter (buckets st) s d1)
     \<and> (if noneAtOrAfter (buckets st) e then d2 = date (last (buckets st))
         else isFirstAtOrAfter (buckets st) e d2)
     \<and> (s \<in> date ` set (buckets st) \<longrightarrow> d1 = s)"
proof -
  assume ne: "buckets st \<noteq> []" and srt: "sorted (map date (buckets st))" and se: "s \<le> e"
  define bs where "bs = buckets st"
  define i where "i = findIndex (atOrAfter (Date s)) bs"
  define j where "j = findIndex (atOrAfter (Date e)) bs"
  define i' where "i' = (if i = - 1 then 0 else i)"
  define j' where "j' = (if j = - 1 then int (length bs) - 1 else j)"
  define r where "r = fst (setSelection (Some (Date s)) (Some (Date e)) st)"
  have sel: "selectionStart r = Some i'" "selectionEnd r = Some j'" "buckets r = bs"
    unfolding r_def i'_def j'_def i_def j_def bs_def by (simp_all add: setSelection_indices)
  have "selectionNormal r"
    unfolding r_def using ne se by (intro setSelection_normal) auto
  then have rng: "0 \<le> i'" "i' \<le> j'" "j' < int (length bs)"
    by (simp_all add: selectionNormal_def sel)
  define d1 where "d1 = date (bs ! nat i')"
  define d2 where "d2 = date (bs ! nat j')"
  have g: "getSelection r = Some (Some d1, Some d2)"
    using rng by (simp add: getSelection_def sel selMin_def selMax_def bucketDateAt_def d1_def d2_def)
  have le: "d1 \<le> d2"
  proof -
    have "sorted (map date bs)" using srt by (simp add: bs_def)
    then have "map date bs ! nat i' \<le> map date bs ! nat j'"
      using rng by (intro sorted_nth_mono) auto
    then show ?thesis using rng by (simp add: d1_def d2_def)
  qed
  have ne': "bs \<noteq> []" using ne by (simp add: bs_def)
  have srt': "sorted (map date bs)" using srt by (simp add: bs_def)
  have ni: "noneAtOrAfter bs s = (i = - 1)" by (simp add: noneAtOrAfter_iff i_def)
  have nj: "noneAtOrAfter bs e = (j = - 1)" by (simp add: noneAtOrAfter_iff j_def)
  have p1: "if noneAtOrAfter bs s then d1 = date (hd bs) else isFirstAtOrAfter bs s d1"
  proof (cases "i = - 1")
    case True
    then show ?thesis using ne' by (simp add: ni d1_def i'_def hd_conv_nth)
  next
    case False
    then have "isFirstAtOrAfter bs s (date (bs ! nat i))"
      unfolding i_def using srt' by (intro first_atOrAfter)
    then show ?thesis using False by (simp add: ni d1_def i'_def)
  qed
  have p2: "if noneAtOrAfter bs e then d2 = date (last bs) else isFirstAtOrAfter bs e d2"
  proof (cases "j = - 1")
    case True
    have "nat (int (length bs) - 1) = length bs - 1" by simp
    then show ?thesis using ne' True by (simp add: nj d2_def j'_def last_conv_nth)
  next
    case False
    then have "isFirstAtOrAfter bs e (date (bs ! nat j))"
      unfolding j_def using srt' by (intro first_atOrAfter)
    then show ?thesis using False by (simp add: nj d2_def j'_def)
  qed
  have p3: "s \<in> date ` set bs \<longrightarrow> d1 = s"
  proof
    assume m: "s \<in> date ` set bs"
    then have "\<not> noneAtOrAfter bs s" by (auto simp: noneAtOrAfter_def)
    then have "isFirstAtOrAfter bs s d1" using p1 by simp
    then show "d1 = s" using m by (auto simp: isFirstAtOrAfter_def)
  qed
  show ?thesis
    unfolding r_def [symmetric] bs_def [symmetric] using g le p1 p2 p3 by blast
qed

text \<open>
  The theorem on the three daily buckets of \<open>slider3\<close>, for a request from the start of
  the first day to noon of the second.
\<close>

theorem setSelection_getSelection_witness:
  "buckets slider3 \<noteq> [] \<and> sorted (map date (buckets slider3)) \<and> (0::int) \<le> 129600000
   \<and> getSelection (fst (setSelection (Some (Date 0)) (Some (Date 129600000)) slider3))
       = Some (Some 0, Some 172800000)
   \<and> (\<exists>d1 d2. getSelection (fst (setSelection (Some (Date 0)) (Some (Date 129600000)) slider3))
         = Some (Some d1, Some d2) \<and> d1 \<le> d2
         \<and> (0 \<in> date ` set (buckets slider3) \<longrightarrow> d1 = 0))"
proof -
  have h1: "buckets slider3 \<noteq> []" by code_simp
  have h2: "sorted (map date (buckets slider3))" by code_simp
  have h3: "(0::int) \<le> 129600000" by simp
  have v: "getSelection (fst (setSelection (Some (Date 0)) (Some (Date 129600000)) slider3))
       = Some (Some 0, Some 172800000)" by code_simp
  show ?thesis using setSelection_getSelection [OF h1 h2 h3] h1 h2 h3 v by blast
qed


text \<open>
  C4 as stated fails. On the same buckets, the request from noon of the first day to
  noon of the second, which lies within the dataset, gives the pair of the second and
  the third day: the returned range starts after the requested start.
\<close>

theorem setSelection_getSelection_counterexample:
  "buckets slider3 \<noteq> [] \<and> (43200000::int) \<le> 129600000
   \<and> getSelection (fst (setSelection (Some (Date 43200000)) (Some (Date 129600000)) slider3))
       = Some (Some 86400000, Some 172800000)
   \<and> \<not> ((86400000::int) \<le> 43200000)"
  by code_simp


text \<open>
  C5, as amended. After a drag is completed by \<open>handleMouseUp\<close> (the mouse was down and
  the selection indices were indices of bars, as a mouse down and mouse moves over the
  bars leave them), and after \<open>setSelection(startDate, endDate)\<close> on a non-empty bucket
  list with \<open>startDate <= endDate\<close> where both are valid dates, the selection indices
  satisfy \<open>0 <= selectionStart <= selectionEnd < bucket count\<close>.
\<close>

theorem selection_normal_after:
  "(isDragging st \<longrightarrow> selectionInBars st \<longrightarrow> selectionNormal (fst (handleMouseUp st)))
   \<and> (inBars st i \<longrightarrow> (\<forall>k. Some k \<in> set moves \<longrightarrow> inBars st k) \<longrightarrow>
        selectionNormal (fst (drag i moves st))
        \<and> selectionStart (fst (drag i moves st)) \<noteq> None
        \<and> selectionEnd (fst (drag i moves st)) \<noteq> None)
   \<and> (buckets st \<noteq> [] \<longrightarrow>
        (\<forall>s t. startDate = Date s \<and> endDate = Some (Date t) \<longrightarrow> s \<le> t) \<longrightarrow>
        selectionNormal (fst (setSelection (Some startDate) endDate st)))"
  using handleMouseUp_normal [of st] drag_normal [of st i moves]
    setSelection_normal [of st startDate endDate]
  by blast


text \<open>
  The theorem on \<open>slider3\<close>: a drag from the third bar back to the first, and a
  \<open>setSelection\<close> of the first two days.
\<close>

theorem selection_normal_after_witness:
  "isDragging (handleMouseMove (Some 0) (handleMouseDown (Some 2) slider3))
   \<and> selectionInBars (handleMouseMove (Some 0) (handleMouseDown (Some 2) slider3))
   \<and> selectionNormal (fst (handleMouseUp (handleMouseMove (Some 0) (handleMouseDown (Some 2) slider3))))
   \<and> inBars slider3 2 \<and> inBars slider3 0 \<and> inBars slider3 1
   \<and> selectionNormal (fst (drag 2 [Some 0, None, Some 1] slider3))
   \<and> buckets slider3 \<noteq> [] \<and> (0::int) \<le> 86400000
   \<and> selectionNormal (fst (setSelection (Some (Date 0)) (Some (Date 86400000)) slider3))"
proof -
  let ?st = "handleMouseMove (Some 0) (handleMouseDown (Some 2) slider3)"
  have h1: "isDragging ?st" by code_simp
  have h2: "selectionInBars ?st" by code_simp
  have h3: "inBars slider3 2" "inBars slider3 0" "inBars slider3 1" by code_simp+
  have h4: "\<forall>k. Some k \<in> set [Some 0, None, Some 1] \<longrightarrow> inBars slider3 k"
    by (simp add: inBars_def slider3_def threeDays_def)
  have h5: "buckets slider3 \<noteq> []" by code_simp
  have h6: "\<forall>s t. Date 0 = Date s \<and> Some (Date 86400000) = Some (Date t) \<longrightarrow> s \<le> t"
    by simp
  show ?thesis
    using selection_normal_after [of ?st 2 "[Some 0, None, Some 1]" "Date 0" "Some (Date 86400000)"]
      selection_normal_after [of slider3 2 "[Some 0, None, Some 1]" "Date 0" "Some (Date 86400000)"]
      h1 h2 h3 h4 h5 h6
    by blast
qed

text \<open>
  C5 as stated fails for \<open>setSelection\<close>: on an empty bucket list the end index
  becomes -1, and with \<open>endDate\<close> before \<open>startDate\<close> the start index is above the end
  index.
\<close>

theorem selection_normal_after_counterexample:
  "buckets slider0 = []
   \<and> selectionStart (fst (setSelection (Some (Date 0)) (Some (Date 0)) slider0)) = Some 0
   \<and> selectionEnd (fst (setSelection (Some (Date 0)) (Some (Date 0)) slider0)) = Some (- 1)
   \<and> \<not> selectionNormal (fst (setSelection (Some (Date 0)) (Some (Date 0)) slider0))
   \<and> selectionStart (fst (setSelection (Some (Date 172800000)) (Some (Date 0)) slider3)) = Some 2
   \<and> selectionEnd (fst (setSelection (Some (Date 172800000)) (Some (Date 0)) slider3)) = Some 0
   \<and> \<not> selectionNormal (fst (setSelection (Some (Date 172800000)) (Some (Date 0)) slider3))"
  by code_simp





text \<open>
  C7. A second call of \<open>selectChat\<close> for a chat fetched successfully is to render the
  cached object without a second request, and the cache is never to hold a chat that
  was not fetched successfully. \<open>selectChat\<close> stores the parsed body under
  \<open>chatCache[selectedChatId]\<close> after its two \<open>await\<close>s, and \<open>selectedChatId\<close> is a
  variable of the module that every call assigns, so a call that began in between
  changes the key. On \<open>explorer0\<close>, whose cache is empty: \<open>proj1/chat1\<close> is selected
  and its request sent; \<open>proj1/chat2\<close> is selected before the answer and its request
  sent; the first request is answered and its body \<open>chat1\<close> parsed; the second request
  fails. Now the cache holds \<open>chat1\<close> under the key \<open>proj1/chat2\<close>, a chat that was
  never fetched successfully, and nothing under \<open>proj1/chat1\<close>. A later call for
  \<open>proj1/chat2\<close> makes no request and shows the title of \<open>chat1\<close>; a later call for
  \<open>proj1/chat1\<close> sends a second request for it.
\<close>

theorem selectChat_overlap_failure:
  "chatCache explorer0 ''proj1/chat1'' = None \<and> chatCache explorer0 ''proj1/chat2'' = None
   \<and> snd (selectChat_call ''proj1'' ''chat1'' True explorer0) = AwaitingFetch
   \<and> snd (selectChat_call ''proj1'' ''chat2'' True overlap1) = AwaitingFetch
   \<and> snd (fetchSettled (Response True) overlap2) = AwaitingJson
   \<and> cacheKey overlap3 = ''proj1/chat2''
   \<and> snd (jsonSettled (Parsed chat1) overlap3) = None
   \<and> snd (fetchSettled Rejected overlap4) = Done None
   \<and> requests overlap5 = [''/api/chat/proj1/chat1'', ''/api/chat/proj1/chat2'']
   \<and> chatCache overlap5 ''proj1/chat2'' = Some chat1
   \<and> chatCache overlap5 ''proj1/chat1'' = None
   \<and> requests (fst (selectChat ''proj1'' ''chat2'' True Rejected Unparseable overlap5)) =
        [''/api/chat/proj1/chat1'', ''/api/chat/proj1/chat2'']
   \<and> detailTitle (fst (selectChat ''proj1'' ''chat2'' True Rejected Unparseable overlap5)) =
        cd_title chat1
   \<and> requests (fst (selectChat ''proj1'' ''chat1'' True (Response True) (Parsed chat1) overlap5)) =
        [''/api/chat/proj1/chat1'', ''/api/chat/proj1/chat2'', ''/api/chat/proj1/chat1'']"
  by code_simp




text \<open>
  C9. The bucket key is to be the ISO date of the week's Sunday (weekly) or of the date
  itself (daily), and a conversation with a valid date is to get the key of the bucket
  that covers it. \<open>getBucketKey\<close> and \<open>createBuckets\<close> find the day and the start of
  the week in local time and then print the date in UTC, so this holds in UTC and fails
  elsewhere. In UTC+1, the one conversation of \<open>oneConv\<close> (2024-01-01T12:00:00Z) gets the
  key of 2024-01-01 while the only bucket, the one of its local day, has the key of
  2023-12-31, and is counted nowhere; neither conversation of \<open>twoConvs\<close> is counted in
  any weekly bucket; and the weekly key of 2024-01-06T23:30:00Z, a Sunday in local
  time, is the date of a Saturday. In UTC the same conversations are counted.
\<close>

theorem getBucketKey_timezone_failure:
  "processData utcPlus1 oneConv =
     Inr [\<lparr>date = 1704063600000, key = 19722, conversations = 0, messages = 0,
             granularity = Day\<rparr>]
   \<and> getBucketKey utcPlus1 1704110400000 Day = Inr 19723
   \<and> processData utc oneConv =
     Inr [\<lparr>date = 1704067200000, key = 19723, conversations = 1, messages = 5,
             granularity = Day\<rparr>]
   \<and> map_sum id (map conversations) (processData utcPlus1 twoConvs) =
       Inr [0, 0, 0, 0, 0, 0, 0, 0, 0, 0, 0]
   \<and> map_sum id (map conversations) (processData utc twoConvs) =
       Inr [1, 0, 0, 0, 0, 0, 0, 0, 0, 0, 1]
   \<and> getBucketKey utcPlus1 1704583800000 Week = Inr 19728
   \<and> weekdayOfDay 19728 = 6"
  by code_simp





end
